theory Spec2Isabelle
  imports Complex_Main "HOL-Library.Multiset"
begin

section \<open>Strings\<close>

text \<open>
  A Python \<open>str\<close> is modelled as a \<open>string\<close>: a list of code points, restricted to the
  range \<open>0..255\<close> that \<open>char\<close> offers. On that range \<open>str.isspace\<close> (which is also what
  \<open>\s\<close>, \<open>str.split()\<close> and \<open>str.strip()\<close> use) and \<open>str.lower\<close> are as below:
  the upper-case letters are \<open>A..Z\<close> and \<open>0xC0..0xDE\<close> without \<open>0xD7\<close>, and each has its
  lower-case letter 32 code points further.
\<close>

definition isspace :: "char \<Rightarrow> bool" where
  "isspace c = (c \<in> set [CHR 0x09, CHR 0x0A, CHR 0x0B, CHR 0x0C, CHR 0x0D,
                          CHR 0x1C, CHR 0x1D, CHR 0x1E, CHR 0x1F, CHR 0x20,
                          CHR 0x85, CHR 0xA0])"

definition upper_chars :: string where
  "upper_chars = ''ABCDEFGHIJKLMNOPQRSTUVWXYZ'' @
       [CHR 0xC0, CHR 0xC1, CHR 0xC2, CHR 0xC3, CHR 0xC4, CHR 0xC5, CHR 0xC6, CHR 0xC7,
        CHR 0xC8, CHR 0xC9, CHR 0xCA, CHR 0xCB, CHR 0xCC, CHR 0xCD, CHR 0xCE, CHR 0xCF,
        CHR 0xD0, CHR 0xD1, CHR 0xD2, CHR 0xD3, CHR 0xD4, CHR 0xD5, CHR 0xD6, CHR 0xD8,
        CHR 0xD9, CHR 0xDA, CHR 0xDB, CHR 0xDC, CHR 0xDD, CHR 0xDE]"

definition lower_chars :: string where
  "lower_chars = ''abcdefghijklmnopqrstuvwxyz'' @
       [CHR 0xE0, CHR 0xE1, CHR 0xE2, CHR 0xE3, CHR 0xE4, CHR 0xE5, CHR 0xE6, CHR 0xE7,
        CHR 0xE8, CHR 0xE9, CHR 0xEA, CHR 0xEB, CHR 0xEC, CHR 0xED, CHR 0xEE, CHR 0xEF,
        CHR 0xF0, CHR 0xF1, CHR 0xF2, CHR 0xF3, CHR 0xF4, CHR 0xF5, CHR 0xF6, CHR 0xF8,
        CHR 0xF9, CHR 0xFA, CHR 0xFB, CHR 0xFC, CHR 0xFD, CHR 0xFE]"

definition lower_char :: "char \<Rightarrow> char" where
  "lower_char c = (case map_of (zip upper_chars lower_chars) c of None \<Rightarrow> c | Some l \<Rightarrow> l)"

definition lower :: "string \<Rightarrow> string" where
  "lower s = map lower_char s"

text \<open>\<open>s.strip()\<close>\<close>

definition strip :: "string \<Rightarrow> string" where
  "strip s = rev (dropWhile isspace (rev (dropWhile isspace s)))"

text \<open>\<open>s.split()\<close>: the maximal runs of non-whitespace characters, in order.\<close>

fun split_acc :: "string \<Rightarrow> string \<Rightarrow> string list" where
  "split_acc cur [] = (if cur = [] then [] else [cur])"
| "split_acc cur (c # cs) =
     (if isspace c
      then (if cur = [] then split_acc [] cs else cur # split_acc [] cs)
      else split_acc (cur @ [c]) cs)"

definition split :: "string \<Rightarrow> string list" where
  "split s = split_acc [] s"

text \<open>\<open>p\<close> matches at the start of \<open>s\<close>; \<open>needle in hay\<close>; \<open>s.count(c)\<close> for one character.\<close>

fun starts_with :: "string \<Rightarrow> string \<Rightarrow> bool" where
  "starts_with [] s = True"
| "starts_with (p # ps) [] = False"
| "starts_with (p # ps) (c # cs) = (p = c \<and> starts_with ps cs)"

fun contains :: "string \<Rightarrow> string \<Rightarrow> bool" where
  "contains needle [] = (needle = [])"
| "contains needle (c # cs) = (starts_with needle (c # cs) \<or> contains needle cs)"

definition count_char :: "char \<Rightarrow> string \<Rightarrow> nat" where
  "count_char c s = length (filter (\<lambda>x. x = c) s)"

text \<open>\<open>sep.join(xs)\<close>\<close>

fun join :: "string \<Rightarrow> string list \<Rightarrow> string" where
  "join sep [] = []"
| "join sep [x] = x"
| "join sep (x # y # ys) = x @ sep @ join sep (y # ys)"

text \<open>Decimal rendering of an integer, as an f-string does it.\<close>

fun str_nat :: "nat \<Rightarrow> string" where
  "str_nat n =
     (if n < 10 then [''0123456789'' ! n]
      else str_nat (n div 10) @ [''0123456789'' ! (n mod 10)])"

declare str_nat.simps [simp del]

definition str_int :: "int \<Rightarrow> string" where
  "str_int i = (if i < 0 then CHR ''-'' # str_nat (nat (- i)) else str_nat (nat i))"

section \<open>Messages\<close>

text \<open>
  A header is a dict read with \<open>header.get('name', '')\<close> and \<open>header.get('value', '')\<close>
  only, so a missing key and the empty string are the same thing to this code. A message
  is a dict whose \<open>sender\<close> is read with two different defaults, so the keys that may be
  missing are options; \<open>email.get('headers', [])\<close> makes a missing list the empty one.
\<close>

record header =
  hname :: string
  hvalue :: string

record email =
  email_id :: "string option"
  sender :: "string option"
  subject :: "string option"
  body :: "string option"
  headers :: "header list"

text \<open>\<open>d.get(key, default)\<close> on a key holding a string\<close>

definition get_str :: "string option \<Rightarrow> string \<Rightarrow> string" where
  "get_str field dflt = (case field of None \<Rightarrow> dflt | Some s \<Rightarrow> s)"

section \<open>Thread identity: \<open>ThreadAnalyzer.extract_thread_id\<close>\<close>

text \<open>\<open>re.sub(r'[<>\s]', '', message_id)\<close>\<close>

definition normalize_message_id :: "string \<Rightarrow> string" where
  "normalize_message_id message_id =
     filter (\<lambda>c. \<not> (c = CHR ''<'' \<or> c = CHR ''>'' \<or> isspace c)) message_id"

text \<open>
  \<open>re.sub(r'^(re|fwd|fw):\s*', '', subject.lower(), flags=re.IGNORECASE)\<close>: the anchor
  lets the pattern match at position 0 only, so one prefix at most is removed, together
  with the whitespace after it.
\<close>

definition strip_reply_prefix :: "string \<Rightarrow> string" where
  "strip_reply_prefix s =
     (if starts_with ''re:'' s then dropWhile isspace (drop 3 s)
      else if starts_with ''fwd:'' s then dropWhile isspace (drop 4 s)
      else if starts_with ''fw:'' s then dropWhile isspace (drop 3 s)
      else s)"

text \<open>\<open>re.sub(r'\s+', ' ', s)\<close>; the flag says that the previous character was whitespace.\<close>

fun collapse_ws :: "bool \<Rightarrow> string \<Rightarrow> string" where
  "collapse_ws inrun [] = []"
| "collapse_ws inrun (c # cs) =
     (if isspace c
      then (if inrun then collapse_ws True cs else CHR '' '' # collapse_ws True cs)
      else c # collapse_ws False cs)"

definition normalize_subject :: "string \<Rightarrow> string" where
  "normalize_subject subj = strip (collapse_ws False (strip_reply_prefix (lower subj)))"

text \<open>
  The loop over the headers assigns three variables; a later header of the same name
  overwrites an earlier one.
\<close>

fun scan_headers ::
  "header list \<Rightarrow> string option \<times> string option \<times> string option
     \<Rightarrow> string option \<times> string option \<times> string option" where
  "scan_headers [] vars = vars"
| "scan_headers (h # hs) (in_reply_to, references, message_id) =
     (if lower (hname h) = ''message-id''
        then scan_headers hs (in_reply_to, references, Some (normalize_message_id (hvalue h)))
      else if lower (hname h) = ''in-reply-to''
        then scan_headers hs (Some (normalize_message_id (hvalue h)), references, message_id)
      else if lower (hname h) = ''references''
        then scan_headers hs (in_reply_to, Some (hvalue h), message_id)
      else scan_headers hs (in_reply_to, references, message_id))"

text \<open>Truthiness of a variable that is \<open>None\<close> or a string.\<close>

definition truthy_str :: "string option \<Rightarrow> bool" where
  "truthy_str v = (case v of None \<Rightarrow> False | Some s \<Rightarrow> s \<noteq> [])"

text \<open>
  Python's \<open>hash\<close> of a string is salted per process; it is a parameter of the model.
  The four exits of \<open>extract_thread_id\<close>, last one first.
\<close>

definition subject_key :: "(string \<Rightarrow> int) \<Rightarrow> email \<Rightarrow> string" where
  "subject_key hash e = ''subject-'' @ str_int (hash (normalize_subject (get_str (subject e) [])))"

definition message_id_key :: "(string \<Rightarrow> int) \<Rightarrow> email \<Rightarrow> string option \<Rightarrow> string" where
  "message_id_key hash e message_id =
     (if truthy_str message_id then get_str message_id [] else subject_key hash e)"

definition references_key ::
  "(string \<Rightarrow> int) \<Rightarrow> email \<Rightarrow> string option \<Rightarrow> string option \<Rightarrow> string" where
  "references_key hash e references message_id =
     (if truthy_str references
      then (case split (get_str references []) of
              [] \<Rightarrow> message_id_key hash e message_id
            | r # rs \<Rightarrow> normalize_message_id r)
      else message_id_key hash e message_id)"

definition extract_thread_id :: "(string \<Rightarrow> int) \<Rightarrow> email \<Rightarrow> string" where
  "extract_thread_id hash e =
     (case scan_headers (headers e) (None, None, None) of
        (in_reply_to, references, message_id) \<Rightarrow>
          if truthy_str in_reply_to then get_str in_reply_to []
          else references_key hash e references message_id)"

section \<open>Grouping: \<open>ThreadAnalyzer.group_emails_by_thread\<close>\<close>

text \<open>
  \<open>datetime.now()\<close> reads the wall clock. The clock is a parameter \<open>now\<close>, the sequence of
  its successive readings, and the number of readings made so far is passed along.
  The loop of \<open>_get_email_timestamp\<close> looks for a \<open>Date\<close> header, reads its value into
  \<open>date_str\<close> and returns \<open>datetime.now()\<close>; it returns \<open>datetime.now()\<close> after the loop as
  well.
\<close>

fun timestamp_loop :: "(nat \<Rightarrow> int) \<Rightarrow> header list \<Rightarrow> nat \<Rightarrow> int \<times> nat" where
  "timestamp_loop now [] n = (now n, Suc n)"
| "timestamp_loop now (h # hs) n =
     (if lower (hname h) = ''date''
      then (let date_str = hvalue h in (now n, Suc n))
      else timestamp_loop now hs n)"

definition get_email_timestamp :: "(nat \<Rightarrow> int) \<Rightarrow> email \<Rightarrow> nat \<Rightarrow> int \<times> nat" where
  "get_email_timestamp now e n = timestamp_loop now (headers e) n"

text \<open>
  \<open>xs.sort(key=self._get_email_timestamp)\<close>: the key of every element is computed once,
  in list order, and the list is sorted by key, equal keys keeping their order.
\<close>

fun sort_keys :: "(nat \<Rightarrow> int) \<Rightarrow> email list \<Rightarrow> nat \<Rightarrow> int list \<times> nat" where
  "sort_keys now [] n = ([], n)"
| "sort_keys now (e # es) n =
     (case get_email_timestamp now e n of
        (k, n1) \<Rightarrow> (case sort_keys now es n1 of (ks, n2) \<Rightarrow> (k # ks, n2)))"

definition sort_by_timestamp :: "(nat \<Rightarrow> int) \<Rightarrow> email list \<Rightarrow> nat \<Rightarrow> email list \<times> nat" where
  "sort_by_timestamp now es n =
     (case sort_keys now es n of (ks, n') \<Rightarrow> (map snd (sort_key fst (zip ks es)), n'))"

text \<open>
  The dict \<open>threads\<close> is an association list in insertion order, as a Python dict is.
  \<open>threads_append\<close> is \<open>if thread_id not in threads: threads[thread_id] = []\<close> followed by
  \<open>threads[thread_id].append(email)\<close>.
\<close>

type_synonym threads = "(string \<times> email list) list"

fun threads_append :: "threads \<Rightarrow> string \<Rightarrow> email \<Rightarrow> threads" where
  "threads_append [] thread_id e = [(thread_id, [e])]"
| "threads_append ((k, bucket) # ts) thread_id e =
     (if k = thread_id then (k, bucket @ [e]) # ts
      else (k, bucket) # threads_append ts thread_id e)"

fun group_loop :: "(string \<Rightarrow> int) \<Rightarrow> email list \<Rightarrow> threads \<Rightarrow> threads" where
  "group_loop hash [] ts = ts"
| "group_loop hash (e # es) ts =
     group_loop hash es (threads_append ts (extract_thread_id hash e) e)"

fun sort_threads :: "(nat \<Rightarrow> int) \<Rightarrow> threads \<Rightarrow> nat \<Rightarrow> threads \<times> nat" where
  "sort_threads now [] n = ([], n)"
| "sort_threads now ((k, bucket) # ts) n =
     (case sort_by_timestamp now bucket n of
        (sorted_bucket, n1) \<Rightarrow>
          (case sort_threads now ts n1 of (ts', n2) \<Rightarrow> ((k, sorted_bucket) # ts', n2)))"

definition group_emails_by_thread ::
  "(string \<Rightarrow> int) \<Rightarrow> (nat \<Rightarrow> int) \<Rightarrow> email list \<Rightarrow> nat \<Rightarrow> threads \<times> nat" where
  "group_emails_by_thread hash now emails n = sort_threads now (group_loop hash emails []) n"

section \<open>Thread context: \<open>ThreadAnalyzer.get_thread_context\<close>\<close>

definition get_thread_context ::
  "(string \<Rightarrow> int) \<Rightarrow> (nat \<Rightarrow> int) \<Rightarrow> email \<Rightarrow> email list \<Rightarrow> nat \<Rightarrow> email list \<times> nat" where
  "get_thread_context hash now e all_emails n =
     (let thread_id = extract_thread_id hash e;
          thread_emails = filter (\<lambda>other. extract_thread_id hash other = thread_id) all_emails
      in case sort_by_timestamp now thread_emails n of
           (sorted_emails, n') \<Rightarrow> (filter (\<lambda>x. email_id x \<noteq> email_id e) sorted_emails, n'))"

section \<open>Patterns: \<open>ThreadAnalyzer.analyze_thread_patterns\<close>\<close>

text \<open>
  The iteration order of a Python set of strings depends on the salted hash; \<open>list(set)\<close>
  is a parameter \<open>set_order\<close> that takes the elements in the order they were added.
\<close>

record analysis =
  thread_length :: nat
  participants :: "string list"
  response_pattern :: "string list"
  urgency_escalation :: bool
  question_count :: nat
  action_items :: "string list"

definition urgency_keywords :: "string list" where
  "urgency_keywords = [''urgent'', ''asap'', ''immediate'', ''deadline'', ''emergency'']"

text \<open>
  The loop body at index \<open>i\<close>; \<open>acc\<close> holds the dict \<open>analysis\<close>, its \<open>participants\<close> being the
  elements added to the set so far.
\<close>

definition patterns_step :: "nat \<Rightarrow> email \<Rightarrow> string option \<Rightarrow> analysis \<Rightarrow> analysis" where
  "patterns_step i e previous_sender acc =
     (let sender_v = get_str (sender e) [];
          body_v = lower (get_str (body e) []);
          subject_v = lower (get_str (subject e) []);
          acc1 = acc\<lparr>participants := participants acc @ [sender_v]\<rparr>;
          acc2 = (if truthy_str previous_sender \<and> previous_sender \<noteq> Some sender_v
                  then acc1\<lparr>response_pattern := response_pattern acc1 @ [''response'']\<rparr>
                  else acc1\<lparr>response_pattern := response_pattern acc1 @ [''continuation'']\<rparr>);
          acc3 = (if list_ex (\<lambda>keyword. contains keyword body_v \<or> contains keyword subject_v)
                       urgency_keywords
                  then (if i > 0 then acc2\<lparr>urgency_escalation := True\<rparr> else acc2)
                  else acc2);
          acc4 = acc3\<lparr>question_count := question_count acc3 + count_char CHR ''?'' body_v\<rparr>
      in if list_ex (\<lambda>phrase. contains phrase body_v)
              [''please'', ''can you'', ''need to'', ''should we'']
         then acc4\<lparr>action_items := action_items acc4
                       @ [''Email '' @ str_nat (i + 1) @ '': Action requested'']\<rparr>
         else acc4)"

fun patterns_loop :: "email list \<Rightarrow> nat \<Rightarrow> string option \<Rightarrow> analysis \<Rightarrow> analysis" where
  "patterns_loop [] i previous_sender acc = acc"
| "patterns_loop (e # es) i previous_sender acc =
     patterns_loop es (Suc i) (Some (get_str (sender e) []))
       (patterns_step i e previous_sender acc)"

text \<open>The empty dict that an empty thread gives is \<open>None\<close>.\<close>

definition analyze_thread_patterns ::
  "(string list \<Rightarrow> string list) \<Rightarrow> email list \<Rightarrow> analysis option" where
  "analyze_thread_patterns set_order thread_emails =
     (if thread_emails = [] then None
      else (let acc = patterns_loop thread_emails 0 None
                        \<lparr>thread_length = length thread_emails, participants = [],
                         response_pattern = [], urgency_escalation = False,
                         question_count = 0, action_items = []\<rparr>
            in Some (acc\<lparr>participants := set_order (participants acc)\<rparr>)))"

section \<open>Recommendation: \<open>ThreadAnalyzer.should_draft_reply\<close>\<close>

text \<open>
  \<open>confidence\<close> is a Python float, an IEEE 754 double. A double is represented by the
  rational number it denotes. A literal such as \<open>0.8\<close> is the double nearest to the decimal
  number, and the sum of two doubles is the double nearest to the exact sum; ties go
  to the even significand. \<open>round_double\<close> rounds a rational to 53 significant bits in
  that way. Overflow, subnormal numbers, infinities and NaN are not modelled; none
  arises from \<open>0.5\<close>, \<open>0.8\<close>, \<open>0.2\<close> and \<open>1.0\<close>, the numbers this code computes with.
\<close>

function bit_length :: "int \<Rightarrow> int" where
  "bit_length x = (if 0 < x then bit_length (x div 2) + 1 else 0)"
  by pat_completeness auto
termination
  by (relation "measure nat") auto

declare bit_length.simps [simp del]

definition pow2 :: "int \<Rightarrow> rat" where
  "pow2 k = (if 0 \<le> k then 2 ^ nat k else 1 / 2 ^ nat (- k))"

definition round_double :: "rat \<Rightarrow> rat" where
  "round_double q =
     (if q = 0 then 0
      else (case quotient_of \<bar>q\<bar> of
              (n, d) \<Rightarrow>
                (let k = bit_length n - bit_length d;
                     e = (if pow2 k \<le> \<bar>q\<bar> then k else k - 1);
                     s = \<bar>q\<bar> / pow2 (e - 52);
                     f = \<lfloor>s\<rfloor>;
                     m = (if s - of_int f < 1 / 2 then f
                          else if 1 / 2 < s - of_int f then f + 1
                          else if even f then f else f + 1)
                 in sgn q * of_int m * pow2 (e - 52))))"

text \<open>A float literal, given by its decimal value, and \<open>x + y\<close> on floats.\<close>

definition float_lit :: "rat \<Rightarrow> rat" where
  "float_lit q = round_double q"

definition float_add :: "rat \<Rightarrow> rat \<Rightarrow> rat" where
  "float_add x y = round_double (x + y)"

record recommendations =
  should_reply :: bool
  reply_urgency :: string
  reply_type :: string
  confidence :: rat

text \<open>\<open>thread_analysis.get(key)\<close> and \<open>thread_analysis.get(key, default)\<close>\<close>

definition get_urgency_escalation :: "analysis option \<Rightarrow> bool" where
  "get_urgency_escalation a = (case a of None \<Rightarrow> False | Some x \<Rightarrow> urgency_escalation x)"

definition get_thread_length :: "analysis option \<Rightarrow> nat \<Rightarrow> nat" where
  "get_thread_length a dflt = (case a of None \<Rightarrow> dflt | Some x \<Rightarrow> thread_length x)"

definition get_question_count :: "analysis option \<Rightarrow> nat \<Rightarrow> nat" where
  "get_question_count a dflt = (case a of None \<Rightarrow> dflt | Some x \<Rightarrow> question_count x)"

definition get_participants :: "analysis option \<Rightarrow> string list \<Rightarrow> string list" where
  "get_participants a dflt = (case a of None \<Rightarrow> dflt | Some x \<Rightarrow> participants x)"

definition should_draft_reply ::
  "(string list \<Rightarrow> string list) \<Rightarrow> email \<Rightarrow> email list \<Rightarrow> recommendations" where
  "should_draft_reply set_order e thread_context =
     (let thread_analysis = analyze_thread_patterns set_order (thread_context @ [e]);
          r0 = \<lparr>should_reply = False, reply_urgency = ''normal'', reply_type = ''standard'',
                confidence = float_lit (5 / 10)\<rparr>;
          body_v = lower (get_str (body e) []);
          r1 = (if list_ex (\<lambda>indicator. contains indicator body_v)
                     [''?'', ''please'', ''can you'', ''what do you think'']
                then r0\<lparr>should_reply := True, confidence := float_lit (8 / 10)\<rparr>
                else r0);
          r2 = (if get_urgency_escalation thread_analysis
                then r1\<lparr>reply_urgency := ''high'',
                       confidence := min (float_lit 1) (float_add (confidence r1) (float_lit (2 / 10)))\<rparr>
                else r1)
      in if get_thread_length thread_analysis 0 > 5 then r2\<lparr>reply_type := ''summary''\<rparr>
         else if list_ex (\<lambda>word. contains word body_v) [''meeting'', ''schedule'', ''calendar'']
           then r2\<lparr>reply_type := ''scheduling''\<rparr>
         else if get_question_count thread_analysis 0 > 2
           then r2\<lparr>reply_type := ''detailed_response''\<rparr>
         else r2)"

section \<open>Summary: \<open>ThreadAnalyzer.get_conversation_summary\<close>\<close>

definition get_conversation_summary ::
  "(string list \<Rightarrow> string list) \<Rightarrow> email list \<Rightarrow> string" where
  "get_conversation_summary set_order thread_emails =
     (if thread_emails = [] then ''No conversation history''
      else if length thread_emails = 1 then ''First message in conversation''
      else
        (let participants_v = set_order (map (\<lambda>e. get_str (sender e) ''Unknown'') thread_emails);
             subjects = map (\<lambda>e. get_str (subject e) []) thread_emails;
             key_topics = (if subjects \<noteq> [] then [normalize_subject (last subjects)] else []);
             summary1 = ''Conversation with '' @ str_nat (length participants_v)
                        @ '' participants ('' @ join '', '' (take 3 participants_v);
             summary2 = (if length participants_v > 3
                         then summary1 @ '' +'' @ str_nat (length participants_v - 3) @ '' others''
                         else summary1);
             summary3 = summary2 @ ''), '' @ str_nat (length thread_emails) @ '' messages''
         in case key_topics of
              [] \<Rightarrow> summary3
            | topic # rest \<Rightarrow> summary3 @ ''. Topic: '' @ take 50 topic))"

section \<open>Orchestration: \<open>AIAnalyzer\<close>\<close>

text \<open>
  What \<open>json.loads\<close> returns, and what the analysis record holds. A float is kept as the
  rational it denotes; only its being zero or not is ever looked at.
\<close>

datatype pyval =
    PNone
  | PBool bool
  | PInt int
  | PFloat rat
  | PStr string
  | PList "pyval list"
  | PDict "(string \<times> pyval) list"

datatype error = AttributeError

text \<open>\<open>not v\<close> is \<open>\<not> truthy v\<close>.\<close>

fun truthy :: "pyval \<Rightarrow> bool" where
  "truthy PNone = False"
| "truthy (PBool b) = b"
| "truthy (PInt i) = (i \<noteq> 0)"
| "truthy (PFloat r) = (r \<noteq> 0)"
| "truthy (PStr s) = (s \<noteq> [])"
| "truthy (PList xs) = (xs \<noteq> [])"
| "truthy (PDict d) = (d \<noteq> [])"

text \<open>\<open>d[key] = v\<close> on a dict kept in insertion order\<close>

fun dict_set :: "(string \<times> pyval) list \<Rightarrow> string \<Rightarrow> pyval \<Rightarrow> (string \<times> pyval) list" where
  "dict_set [] key v = [(key, v)]"
| "dict_set ((k, w) # d) key v = (if k = key then (k, v) # d else (k, w) # dict_set d key v)"

definition fallback_analysis :: pyval where
  "fallback_analysis = PDict
     [(''summary'', PStr ''AI analysis unavailable''),
      (''category'', PStr ''Unknown''),
      (''priority'', PStr ''Medium''),
      (''suggested_action'', PStr ''NoAction''),
      (''urgency_indicators'', PList []),
      (''requires_response'', PBool False),
      (''estimated_response_time'', PNone),
      (''task_description'', PNone),
      (''thread_position'', PStr ''Unknown'')]"

text \<open>\<open>s.find(c)\<close> and \<open>s.rfind(c)\<close> for one character: an index, or \<open>-1\<close>.\<close>

fun find_from :: "char \<Rightarrow> string \<Rightarrow> nat \<Rightarrow> int" where
  "find_from c [] i = - 1"
| "find_from c (x # xs) i = (if x = c then int i else find_from c xs (Suc i))"

definition find_char :: "char \<Rightarrow> string \<Rightarrow> int" where
  "find_char c s = find_from c s 0"

definition rfind_char :: "char \<Rightarrow> string \<Rightarrow> int" where
  "rfind_char c s =
     (let k = find_char c (rev s) in if k = - 1 then - 1 else int (length s) - 1 - k)"

text \<open>
  The classifier is the external collaborator. \<open>self.client\<close> is \<open>None\<close> when no API key is
  configured. Otherwise the request is a fixed prompt around the sender, the subject and
  the first 1500 characters of the body (\<open>thread_context\<close> is not passed by
  \<open>analyze_email_with_context\<close>, so \<open>thread_info\<close> is empty), and the collaborator is the
  function from these three to the text of the reply, \<open>None\<close> when the call or the
  reading of \<open>message.content[0].text\<close> raises. \<open>json.loads\<close> is a parameter too, \<open>None\<close>
  when it raises. Everything raised inside the \<open>try\<close> is caught and gives the fallback.
\<close>

type_synonym client = "string \<Rightarrow> string \<Rightarrow> string \<Rightarrow> string option"

definition parse_response :: "(string \<Rightarrow> pyval option) \<Rightarrow> string \<Rightarrow> pyval option" where
  "parse_response json_loads text =
     (let response_text = strip text;
          json_start = find_char CHR ''{'' response_text;
          json_end = rfind_char CHR ''}'' response_text + 1
      in if json_start \<noteq> - 1 \<and> json_end \<noteq> 0
         then json_loads (drop (nat json_start) (take (nat json_end) response_text))
         else json_loads response_text)"

definition analyze_email ::
  "client option \<Rightarrow> (string \<Rightarrow> pyval option) \<Rightarrow> string \<Rightarrow> string \<Rightarrow> string \<Rightarrow> pyval" where
  "analyze_email client json_loads sender_v subject_v body_v =
     (case client of
        None \<Rightarrow> fallback_analysis
      | Some create \<Rightarrow>
          (case create sender_v subject_v (take 1500 body_v) of
             None \<Rightarrow> fallback_analysis
           | Some text \<Rightarrow>
               (case parse_response json_loads text of
                  None \<Rightarrow> fallback_analysis
                | Some v \<Rightarrow> v)))"

text \<open>
  The part of \<open>analyze_email_with_context\<close> that runs once a non-empty thread context is
  there. \<open>basic_analysis.update\<close> exists on a dict only.
\<close>

definition enhance ::
  "(string list \<Rightarrow> string list) \<Rightarrow> email \<Rightarrow> email list \<Rightarrow> pyval \<Rightarrow> error + pyval option" where
  "enhance set_order e thread_context basic_analysis =
     (let thread_summary = get_conversation_summary set_order (thread_context @ [e]);
          reply_recommendations = should_draft_reply set_order e thread_context;
          thread_analysis = analyze_thread_patterns set_order (thread_context @ [e])
      in case basic_analysis of
           PDict d \<Rightarrow>
             (let d1 = dict_set d ''thread_context'' (PDict
                    [(''thread_length'', PInt (int (get_thread_length thread_analysis 1))),
                     (''participants'', PList (map PStr (get_participants thread_analysis []))),
                     (''conversation_summary'', PStr thread_summary),
                     (''reply_recommended'', PBool (should_reply reply_recommendations)),
                     (''reply_urgency'', PStr (reply_urgency reply_recommendations)),
                     (''suggested_reply_type'', PStr (reply_type reply_recommendations))])
              in if reply_urgency reply_recommendations = ''high''
                 then Inr (Some (PDict (dict_set d1 ''priority'' (PStr ''High''))))
                 else if get_urgency_escalation thread_analysis
                   then (if map_of d1 ''priority'' = Some (PStr ''Low'')
                         then Inr (Some (PDict (dict_set d1 ''priority'' (PStr ''Medium''))))
                         else Inr (Some (PDict d1)))
                 else Inr (Some (PDict d1)))
         | _ \<Rightarrow> Inl AttributeError)"

definition analyze_email_with_context ::
  "client option \<Rightarrow> (string \<Rightarrow> pyval option) \<Rightarrow> (string \<Rightarrow> int) \<Rightarrow> (nat \<Rightarrow> int)
     \<Rightarrow> (string list \<Rightarrow> string list) \<Rightarrow> email \<Rightarrow> email list option \<Rightarrow> nat
     \<Rightarrow> error + pyval option" where
  "analyze_email_with_context client json_loads hash now set_order e all_emails n =
     (let basic_analysis = analyze_email client json_loads
            (get_str (sender e) []) (get_str (subject e) []) (get_str (body e) [])
      in if \<not> truthy basic_analysis then Inr None
         else (case all_emails of
                 None \<Rightarrow> Inr (Some basic_analysis)
               | Some [] \<Rightarrow> Inr (Some basic_analysis)
               | Some (x # xs) \<Rightarrow>
                   (case get_thread_context hash now e (x # xs) n of
                      (thread_context, n') \<Rightarrow>
                        if thread_context = [] then Inr (Some basic_analysis)
                        else enhance set_order e thread_context basic_analysis)))"

section \<open>Notions used to state the properties\<close>

text \<open>The value of the last header of the message whose lower-cased name is \<open>nm\<close>.\<close>

fun header_value :: "string \<Rightarrow> header list \<Rightarrow> string option" where
  "header_value nm [] = None"
| "header_value nm (h # hs) =
     (case header_value nm hs of
        Some v \<Rightarrow> Some v
      | None \<Rightarrow> if lower (hname h) = nm then Some (hvalue h) else None)"

text \<open>The message with every header of that name taken out.\<close>

definition without_header :: "string \<Rightarrow> email \<Rightarrow> email" where
  "without_header nm e = e\<lparr>headers := filter (\<lambda>h. lower (hname h) \<noteq> nm) (headers e)\<rparr>"

text \<open>The first whitespace-separated token of the \<open>References\<close> header, if there is one.\<close>

definition first_reference :: "header list \<Rightarrow> string option" where
  "first_reference hs =
     (case header_value ''references'' hs of
        None \<Rightarrow> None
      | Some r \<Rightarrow> (case split r of [] \<Rightarrow> None | t # ts \<Rightarrow> Some t))"

definition sender_of :: "email \<Rightarrow> string" where
  "sender_of e = get_str (sender e) []"

definition body_of :: "email \<Rightarrow> string" where
  "body_of e = get_str (body e) []"

text \<open>
  The response pattern of the messages \<open>es\<close> that follow a message sent by \<open>prev\<close>
  (\<open>None\<close> at the start of the thread).
\<close>

fun pattern_after :: "string option \<Rightarrow> email list \<Rightarrow> string list" where
  "pattern_after prev [] = []"
| "pattern_after prev (e # es) =
     (if truthy_str prev \<and> prev \<noteq> Some (sender_of e) then ''response'' else ''continuation'')
       # pattern_after (Some (sender_of e)) es"

text \<open>
  \<open>hay\<close> has a substring that is \<open>needle\<close> up to letter case.
\<close>

definition ci_contains :: "string \<Rightarrow> string \<Rightarrow> bool" where
  "ci_contains needle hay = (\<exists>pre mid post. hay = pre @ mid @ post \<and> lower mid = lower needle)"

text \<open>The condition of the rule that sets \<open>should_reply\<close>, as the code evaluates it.\<close>

definition asks_for_reply :: "email \<Rightarrow> bool" where
  "asks_for_reply e =
     list_ex (\<lambda>indicator. contains indicator (lower (body_of e)))
       [''?'', ''please'', ''can you'', ''what do you think'']"

text \<open>The sender as the summary reads it.\<close>

definition sender_or_unknown :: "email \<Rightarrow> string" where
  "sender_or_unknown e = get_str (sender e) ''Unknown''"

text \<open>
  The classifier fails on a message: there is no client, or the call for this message
  raises.
\<close>

definition classifier_fails :: "client option \<Rightarrow> email \<Rightarrow> bool" where
  "classifier_fails client e =
     (case client of
        None \<Rightarrow> True
      | Some create \<Rightarrow>
          create (get_str (sender e) []) (get_str (subject e) [])
            (take 1500 (get_str (body e) [])) = None)"

text \<open>The thread context that \<open>analyze_email_with_context\<close> works with; none without a list.\<close>

definition thread_context_of ::
  "(string \<Rightarrow> int) \<Rightarrow> (nat \<Rightarrow> int) \<Rightarrow> email \<Rightarrow> email list option \<Rightarrow> nat \<Rightarrow> email list" where
  "thread_context_of hash now e all_emails n =
     (case all_emails of
        None \<Rightarrow> []
      | Some xs \<Rightarrow> fst (get_thread_context hash now e xs n))"

text \<open>The items of a record.\<close>

fun items_of :: "pyval \<Rightarrow> (string \<times> pyval) list" where
  "items_of (PDict d) = d"
| "items_of v = []"

text \<open>
  The fallback record with its priority replaced by \<open>p\<close> and a \<open>thread_context\<close> field
  \<open>c\<close> added at the end.
\<close>

definition fallback_with :: "string \<Rightarrow> pyval \<Rightarrow> (string \<times> pyval) list" where
  "fallback_with p c =
     [(''summary'', PStr ''AI analysis unavailable''),
      (''category'', PStr ''Unknown''),
      (''priority'', PStr p),
      (''suggested_action'', PStr ''NoAction''),
      (''urgency_indicators'', PList []),
      (''requires_response'', PBool False),
      (''estimated_response_time'', PNone),
      (''task_description'', PNone),
      (''thread_position'', PStr ''Unknown''),
      (''thread_context'', c)]"

section \<open>Example inputs\<close>

definition const_hash :: "string \<Rightarrow> int" where
  "const_hash s = 0"

definition tick :: "nat \<Rightarrow> int" where
  "tick n = int n"

text \<open>A client whose every call raises, and a \<open>json.loads\<close> that always raises.\<close>

definition failing_client :: client where
  "failing_client sender_v subject_v body_v = None"

definition no_json :: "string \<Rightarrow> pyval option" where
  "no_json s = None"

definition root_msg :: email where
  "root_msg =
     \<lparr>email_id = Some ''m1'', sender = Some ''alice'', subject = Some ''Budget'',
      body = Some ''see plan'',
      headers = [\<lparr>hname = ''Message-ID'', hvalue = ''<root@x>''\<rparr>,
                 \<lparr>hname = ''Date'', hvalue = ''Mon, 15 Jan 2024 10:30:00 -0800''\<rparr>]\<rparr>"

definition reply_msg :: email where
  "reply_msg =
     \<lparr>email_id = Some ''m2'', sender = Some ''bob'', subject = Some ''Re: Budget'',
      body = Some ''Urgent: can you?'',
      headers = [\<lparr>hname = ''In-Reply-To'', hvalue = ''<root@x>''\<rparr>,
                 \<lparr>hname = ''References'', hvalue = ''<first@x> <root@x>''\<rparr>,
                 \<lparr>hname = ''Message-ID'', hvalue = ''<m2@x>''\<rparr>,
                 \<lparr>hname = ''Date'', hvalue = ''Tue, 16 Jan 2024 09:00:00 -0800''\<rparr>]\<rparr>"

definition reply_with_empty_parent :: email where
  "reply_with_empty_parent =
     \<lparr>email_id = Some ''m3'', sender = Some ''bob'', subject = Some ''Re: Budget'',
      body = Some ''ok'',
      headers = [\<lparr>hname = ''In-Reply-To'', hvalue = ''<>''\<rparr>,
                 \<lparr>hname = ''References'', hvalue = ''<first@x> <root@x>''\<rparr>,
                 \<lparr>hname = ''Message-ID'', hvalue = ''<m3@x>''\<rparr>]\<rparr>"

definition blank_ids_msg :: email where
  "blank_ids_msg =
     \<lparr>email_id = Some ''m4'', sender = Some ''carol'', subject = Some ''Re: Budget'',
      body = Some ''ok'',
      headers = [\<lparr>hname = ''In-Reply-To'', hvalue = '' <> ''\<rparr>,
                 \<lparr>hname = ''Message-ID'', hvalue = ''<>''\<rparr>]\<rparr>"

definition empty_references_msg :: email where
  "empty_references_msg =
     \<lparr>email_id = Some ''m5'', sender = Some ''dave'', subject = Some ''Re: Budget'',
      body = Some ''ok'',
      headers = [\<lparr>hname = ''References'', hvalue = ''<>''\<rparr>,
                 \<lparr>hname = ''Message-ID'', hvalue = ''<z@x>''\<rparr>]\<rparr>"

definition no_subject_msg :: email where
  "no_subject_msg =
     \<lparr>email_id = Some ''m6'', sender = Some ''bob'', subject = Some [], body = Some ''ok'',
      headers = []\<rparr>"

definition bare_msg :: email where
  "bare_msg = \<lparr>email_id = Some ''m0'', sender = None, subject = None, body = None, headers = []\<rparr>"

section \<open>Properties\<close>

subsection \<open>Thread identity\<close>

text \<open>What the loop over the headers leaves in its three variables.\<close>

lemma scan_headers_eq:
  "scan_headers hs (a, b, c) =
     (case header_value ''in-reply-to'' hs of None \<Rightarrow> a | Some v \<Rightarrow> Some (normalize_message_id v),
      case header_value ''references'' hs of None \<Rightarrow> b | Some v \<Rightarrow> Some v,
      case header_value ''message-id'' hs of None \<Rightarrow> c | Some v \<Rightarrow> Some (normalize_message_id v))"
  by (induction hs arbitrary: a b c) (auto split: option.splits)

lemma split_Nil: "split [] = []"
  by (simp add: split_def)

text \<open>The four exits of the resolver in terms of the headers that count.\<close>

lemma extract_thread_id_eq:
  "extract_thread_id hash e =
     (case header_value ''in-reply-to'' (headers e) of
        None \<Rightarrow> references_key hash e (header_value ''references'' (headers e))
                  (map_option normalize_message_id (header_value ''message-id'' (headers e)))
      | Some v \<Rightarrow>
          if normalize_message_id v \<noteq> [] then normalize_message_id v
          else references_key hash e (header_value ''references'' (headers e))
                 (map_option normalize_message_id (header_value ''message-id'' (headers e))))"
  by (simp add: extract_thread_id_def scan_headers_eq truthy_str_def get_str_def
           split: option.splits)

lemma references_key_eq:
  "references_key hash e (header_value ''references'' (headers e)) mid =
     (case first_reference (headers e) of
        Some t \<Rightarrow> normalize_message_id t
      | None \<Rightarrow> message_id_key hash e mid)"
  by (simp add: references_key_def first_reference_def truthy_str_def get_str_def split_Nil
           split: option.splits list.splits)

lemma message_id_key_eq:
  "message_id_key hash e (map_option normalize_message_id mv) =
     (case mv of
        None \<Rightarrow> subject_key hash e
      | Some m \<Rightarrow> if normalize_message_id m = [] then subject_key hash e
                  else normalize_message_id m)"
  by (simp add: message_id_key_def truthy_str_def get_str_def split: option.splits)

lemma message_id_key_empty: "message_id_key hash e (Some []) = subject_key hash e"
  by (simp add: message_id_key_def truthy_str_def)

lemma message_id_key_None: "message_id_key hash e None = subject_key hash e"
  by (simp add: message_id_key_def truthy_str_def)

lemma references_key_empty: "references_key hash e r (Some []) = references_key hash e r None"
  by (simp add: references_key_def message_id_key_empty message_id_key_None split: list.splits)

lemma header_value_filter_other:
  "nm \<noteq> nm' \<Longrightarrow> header_value nm (filter (\<lambda>h. lower (hname h) \<noteq> nm') hs) = header_value nm hs"
  by (induction hs) (auto split: option.splits)

lemma header_value_filter_same:
  "header_value nm (filter (\<lambda>h. lower (hname h) \<noteq> nm) hs) = None"
  by (induction hs) (auto split: option.splits)

lemma subject_key_without_header: "subject_key hash (without_header nm e) = subject_key hash e"
  by (simp add: subject_key_def without_header_def)

lemma message_id_key_without_header:
  "message_id_key hash (without_header nm e) mid = message_id_key hash e mid"
  by (simp add: message_id_key_def subject_key_without_header)

lemma references_key_without_header:
  "references_key hash (without_header nm e) r mid = references_key hash e r mid"
  by (simp add: references_key_def message_id_key_without_header split: list.splits)

lemma without_in_reply_to:
  assumes "header_value ''in-reply-to'' (headers e) = Some v" and "normalize_message_id v = []"
  shows "extract_thread_id hash (without_header ''in-reply-to'' e) = extract_thread_id hash e"
proof -
  have "headers (without_header ''in-reply-to'' e)
          = filter (\<lambda>h. lower (hname h) \<noteq> ''in-reply-to'') (headers e)"
    by (simp add: without_header_def)
  then show ?thesis
    using assms
    by (simp add: extract_thread_id_eq header_value_filter_same header_value_filter_other
          references_key_without_header)
qed

lemma without_message_id:
  assumes "header_value ''message-id'' (headers e) = Some m" and "normalize_message_id m = []"
  shows "extract_thread_id hash (without_header ''message-id'' e) = extract_thread_id hash e"
proof -
  have h: "headers (without_header ''message-id'' e)
          = filter (\<lambda>h. lower (hname h) \<noteq> ''message-id'') (headers e)"
    by (simp add: without_header_def)
  show ?thesis
    using assms
    by (simp add: extract_thread_id_eq h references_key_empty header_value_filter_same header_value_filter_other
          references_key_without_header split: option.splits)
qed

text \<open>
  The \<open>References\<close> header is tested and split as it is; its first token is normalized
  only on the way out, and is returned whatever it normalizes to.
\<close>

lemma first_reference_returned:
  "header_value ''in-reply-to'' (headers e) = None \<Longrightarrow> first_reference (headers e) = Some t
     \<Longrightarrow> extract_thread_id hash e = normalize_message_id t"
  by (simp add: extract_thread_id_eq references_key_eq)

text \<open>Evaluation of the resolver on the example inputs.\<close>

lemma reply_msg_headers:
  "header_value ''in-reply-to'' (headers reply_msg) = Some ''<root@x>''"
  "header_value ''references'' (headers reply_msg) = Some ''<first@x> <root@x>''"
  "normalize_message_id ''<root@x>'' = ''root@x''"
  by code_simp+

lemma reply_with_empty_parent_eval:
  "header_value ''in-reply-to'' (headers reply_with_empty_parent) = Some ''<>''"
  "header_value ''references'' (headers reply_with_empty_parent) = Some ''<first@x> <root@x>''"
  "normalize_message_id ''<>'' = []"
  "extract_thread_id const_hash reply_with_empty_parent = ''first@x''"
  by code_simp+

lemma blank_ids_msg_eval:
  "header_value ''in-reply-to'' (headers blank_ids_msg) = Some '' <> ''"
  "header_value ''message-id'' (headers blank_ids_msg) = Some ''<>''"
  "normalize_message_id '' <> '' = []"
  "normalize_message_id ''<>'' = []"
  "first_reference (headers blank_ids_msg) = None"
  "subject_key const_hash blank_ids_msg = ''subject-0''"
  by code_simp+

text \<open>
  C3 (as amended). A message that carries an \<open>In-Reply-To\<close> and a \<open>References\<close> header
  resolves to the normalized \<open>In-Reply-To\<close> value, whatever \<open>References\<close> holds, provided
  that value is not empty once normalized. The value of a header is that of its last
  occurrence.
\<close>

theorem resolver_priority:
  assumes "header_value ''in-reply-to'' (headers e) = Some v"
    and "header_value ''references'' (headers e) = Some r"
    and "normalize_message_id v \<noteq> []"
  shows "extract_thread_id hash e = normalize_message_id v"
  using assms by (simp add: extract_thread_id_eq)

theorem resolver_priority_witness:
  "header_value ''in-reply-to'' (headers reply_msg) = Some ''<root@x>''
   \<and> header_value ''references'' (headers reply_msg) = Some ''<first@x> <root@x>''
   \<and> normalize_message_id ''<root@x>'' \<noteq> []
   \<and> extract_thread_id const_hash reply_msg = ''root@x''"
proof -
  have a: "header_value ''in-reply-to'' (headers reply_msg) = Some ''<root@x>''"
    by (rule reply_msg_headers)
  have b: "header_value ''references'' (headers reply_msg) = Some ''<first@x> <root@x>''"
    by (rule reply_msg_headers)
  have c: "normalize_message_id ''<root@x>'' \<noteq> []"
    by (simp add: reply_msg_headers)
  show ?thesis
    using a b c resolver_priority [OF a b c, of const_hash] by (simp add: reply_msg_headers)
qed

text \<open>
  C3 as stated fails: this message carries both headers, its \<open>In-Reply-To\<close> normalizes to
  the empty string, and the key is the first token of \<open>References\<close>.
\<close>

theorem resolver_priority_counterexample:
  "header_value ''in-reply-to'' (headers reply_with_empty_parent) = Some ''<>''
   \<and> header_value ''references'' (headers reply_with_empty_parent) = Some ''<first@x> <root@x>''
   \<and> extract_thread_id const_hash reply_with_empty_parent \<noteq> normalize_message_id ''<>''
   \<and> extract_thread_id const_hash reply_with_empty_parent = ''first@x''"
  by (simp add: reply_with_empty_parent_eval)

text \<open>
  An \<open>In-Reply-To\<close> header whose value is empty once normalized counts as absent:
  the key is that of the message without the header, which is the first token of
  \<open>References\<close> if there is one, else the normalized \<open>Message-ID\<close> if that is not empty,
  else the subject key. A \<open>Message-ID\<close> header whose value is empty once normalized
  counts as absent too: where the resolver gets as far as the \<open>Message-ID\<close>, it goes on
  to the subject key.
\<close>

lemma tested_headers_empty_absent:
  "(header_value ''in-reply-to'' (headers e) = Some v \<and> normalize_message_id v = [] \<longrightarrow>
      extract_thread_id hash e = extract_thread_id hash (without_header ''in-reply-to'' e)
      \<and> extract_thread_id hash e =
          (case first_reference (headers e) of
             Some t \<Rightarrow> normalize_message_id t
           | None \<Rightarrow>
               (case header_value ''message-id'' (headers e) of
                  None \<Rightarrow> subject_key hash e
                | Some m' \<Rightarrow> if normalize_message_id m' = [] then subject_key hash e
                             else normalize_message_id m')))
   \<and> (header_value ''message-id'' (headers e) = Some m \<and> normalize_message_id m = [] \<longrightarrow>
      extract_thread_id hash e = extract_thread_id hash (without_header ''message-id'' e)
      \<and> extract_thread_id hash e =
          (case header_value ''in-reply-to'' (headers e) of
             None \<Rightarrow> (case first_reference (headers e) of
                        Some t \<Rightarrow> normalize_message_id t
                      | None \<Rightarrow> subject_key hash e)
           | Some v' \<Rightarrow>
               if normalize_message_id v' \<noteq> [] then normalize_message_id v'
               else (case first_reference (headers e) of
                       Some t \<Rightarrow> normalize_message_id t
                     | None \<Rightarrow> subject_key hash e)))"
proof (intro conjI impI)
  assume h: "header_value ''in-reply-to'' (headers e) = Some v \<and> normalize_message_id v = []"
  then show "extract_thread_id hash e = extract_thread_id hash (without_header ''in-reply-to'' e)"
    by (simp add: without_in_reply_to)
  from h show "extract_thread_id hash e =
          (case first_reference (headers e) of
             Some t \<Rightarrow> normalize_message_id t
           | None \<Rightarrow>
               (case header_value ''message-id'' (headers e) of
                  None \<Rightarrow> subject_key hash e
                | Some m' \<Rightarrow> if normalize_message_id m' = [] then subject_key hash e
                             else normalize_message_id m'))"
    by (simp add: extract_thread_id_eq references_key_eq message_id_key_eq
             split: option.splits)
next
  assume h: "header_value ''message-id'' (headers e) = Some m \<and> normalize_message_id m = []"
  then show "extract_thread_id hash e = extract_thread_id hash (without_header ''message-id'' e)"
    by (simp add: without_message_id)
  from h show "extract_thread_id hash e =
          (case header_value ''in-reply-to'' (headers e) of
             None \<Rightarrow> (case first_reference (headers e) of
                        Some t \<Rightarrow> normalize_message_id t
                      | None \<Rightarrow> subject_key hash e)
           | Some v' \<Rightarrow>
               if normalize_message_id v' \<noteq> [] then normalize_message_id v'
               else (case first_reference (headers e) of
                       Some t \<Rightarrow> normalize_message_id t
                     | None \<Rightarrow> subject_key hash e))"
    by (simp add: extract_thread_id_eq references_key_eq message_id_key_empty
             split: option.splits)
qed

lemma tested_headers_empty_absent_example:
  "header_value ''in-reply-to'' (headers blank_ids_msg) = Some '' <> ''
   \<and> normalize_message_id '' <> '' = []
   \<and> header_value ''message-id'' (headers blank_ids_msg) = Some ''<>''
   \<and> normalize_message_id ''<>'' = []
   \<and> first_reference (headers blank_ids_msg) = None
   \<and> extract_thread_id const_hash blank_ids_msg
       = extract_thread_id const_hash (without_header ''in-reply-to'' blank_ids_msg)
   \<and> extract_thread_id const_hash blank_ids_msg
       = extract_thread_id const_hash (without_header ''message-id'' blank_ids_msg)
   \<and> extract_thread_id const_hash blank_ids_msg = ''subject-0''"
proof -
  have a: "header_value ''in-reply-to'' (headers blank_ids_msg) = Some '' <> ''
           \<and> normalize_message_id '' <> '' = []"
    by (simp add: blank_ids_msg_eval)
  have b: "header_value ''message-id'' (headers blank_ids_msg) = Some ''<>''
           \<and> normalize_message_id ''<>'' = []"
    by (simp add: blank_ids_msg_eval)
  have c: "(case first_reference (headers blank_ids_msg) of
              Some t \<Rightarrow> normalize_message_id t
            | None \<Rightarrow>
                (case header_value ''message-id'' (headers blank_ids_msg) of
                   None \<Rightarrow> subject_key const_hash blank_ids_msg
                 | Some m' \<Rightarrow> if normalize_message_id m' = []
                              then subject_key const_hash blank_ids_msg
                              else normalize_message_id m')) = ''subject-0''"
    by (simp add: blank_ids_msg_eval)
  note t = tested_headers_empty_absent [of blank_ids_msg "'' <> ''" const_hash "''<>''"]
  note p = t [THEN conjunct1, THEN mp, OF a]
  note q = t [THEN conjunct2, THEN mp, OF b]
  have r: "extract_thread_id const_hash blank_ids_msg = ''subject-0''"
    by (rule trans [OF p [THEN conjunct2] c])
  have f: "first_reference (headers blank_ids_msg) = None"
    by (rule blank_ids_msg_eval)
  from a b f p [THEN conjunct1] q [THEN conjunct1] r show ?thesis
    by blast
qed

lemma empty_references_msg_eval:
  "header_value ''references'' (headers empty_references_msg) = Some ''<>''"
  "header_value ''message-id'' (headers empty_references_msg) = Some ''<z@x>''"
  "extract_thread_id const_hash empty_references_msg = []"
  "extract_thread_id const_hash (without_header ''references'' empty_references_msg) = ''z@x''"
  by code_simp+

text \<open>
  C10. A threading header whose value is empty once normalized is to count as absent.
  The \<open>In-Reply-To\<close> and \<open>Message-ID\<close> headers do, the \<open>References\<close> header does not:
  this message has \<open>References: <>\<close>, which is empty once normalized, and
  \<open>Message-ID: <z@x>\<close>; its key is the empty string, where the key of the same
  message without the \<open>References\<close> header is \<open>z@x\<close>.
\<close>

theorem empty_references_not_absent:
  "header_value ''references'' (headers empty_references_msg) = Some ''<>''
   \<and> normalize_message_id ''<>'' = []
   \<and> header_value ''message-id'' (headers empty_references_msg) = Some ''<z@x>''
   \<and> extract_thread_id const_hash empty_references_msg = []
   \<and> extract_thread_id const_hash (without_header ''references'' empty_references_msg) = ''z@x''"
  by (simp only: empty_references_msg_eval blank_ids_msg_eval simp_thms)

subsection \<open>Grouping\<close>

lemma timestamp_loop_now: "timestamp_loop now hs n = (now n, Suc n)"
  by (induction hs) simp_all

lemma length_sort_keys: "length (fst (sort_keys now es n)) = length es"
proof (induction es arbitrary: n)
  case Nil
  then show ?case by simp
next
  case (Cons e es)
  obtain k n1 where a: "get_email_timestamp now e n = (k, n1)"
    by (cases "get_email_timestamp now e n")
  obtain ks n2 where b: "sort_keys now es n1 = (ks, n2)"
    by (cases "sort_keys now es n1")
  from Cons.IH [of n1] b have "length ks = length es"
    by simp
  then show ?case
    by (simp add: a b)
qed

lemma mset_sort_by_timestamp: "mset (fst (sort_by_timestamp now es n)) = mset es"
proof -
  obtain ks n' where k: "sort_keys now es n = (ks, n')"
    by (cases "sort_keys now es n")
  with length_sort_keys [of now es n] have len: "length ks = length es"
    by simp
  have "mset (map snd (sort_key fst (zip ks es))) = image_mset snd (mset (sort_key fst (zip ks es)))"
    by simp
  also have "\<dots> = image_mset snd (mset (zip ks es))"
    by simp
  also have "\<dots> = mset (map snd (zip ks es))"
    by simp
  also have "\<dots> = mset es"
    using len by simp
  finally show ?thesis
    by (simp add: sort_by_timestamp_def k)
qed

lemma threads_append_keys:
  "map fst (threads_append ts k e) = (if k \<in> set (map fst ts) then map fst ts else map fst ts @ [k])"
  by (induction ts k e rule: threads_append.induct) auto

lemma threads_append_distinct:
  "distinct (map fst ts) \<Longrightarrow> distinct (map fst (threads_append ts k e))"
  by (simp add: threads_append_keys)

lemma threads_append_mset:
  "(\<Sum>p\<leftarrow>threads_append ts k e. mset (snd p)) = (\<Sum>p\<leftarrow>ts. mset (snd p)) + {#e#}"
  by (induction ts k e rule: threads_append.induct) auto

lemma threads_append_keyed:
  "\<forall>p\<in>set ts. \<forall>m\<in>set (snd p). f m = fst p \<Longrightarrow> f e = k
     \<Longrightarrow> \<forall>p\<in>set (threads_append ts k e). \<forall>m\<in>set (snd p). f m = fst p"
  by (induction ts k e rule: threads_append.induct) auto

lemma group_loop_distinct:
  "distinct (map fst ts) \<Longrightarrow> distinct (map fst (group_loop hash es ts))"
  by (induction es arbitrary: ts) (simp_all add: threads_append_distinct)

lemma group_loop_mset:
  "(\<Sum>p\<leftarrow>group_loop hash es ts. mset (snd p)) = (\<Sum>p\<leftarrow>ts. mset (snd p)) + mset es"
  by (induction es arbitrary: ts) (simp_all add: threads_append_mset)

lemma group_loop_keyed:
  "\<forall>p\<in>set ts. \<forall>m\<in>set (snd p). extract_thread_id hash m = fst p
     \<Longrightarrow> \<forall>p\<in>set (group_loop hash es ts). \<forall>m\<in>set (snd p). extract_thread_id hash m = fst p"
proof (induction es arbitrary: ts)
  case Nil
  then show ?case by simp
next
  case (Cons e es)
  have "\<forall>p\<in>set (threads_append ts (extract_thread_id hash e) e).
          \<forall>m\<in>set (snd p). extract_thread_id hash m = fst p"
    by (rule threads_append_keyed [OF Cons.prems refl])
  from Cons.IH [OF this] show ?case by simp
qed

lemma sort_threads_keys: "map fst (fst (sort_threads now ts n)) = map fst ts"
proof (induction now ts n rule: sort_threads.induct)
  case (1 now n)
  then show ?case by simp
next
  case (2 now k bucket ts n)
  obtain sb n1 where s: "sort_by_timestamp now bucket n = (sb, n1)"
    by (cases "sort_by_timestamp now bucket n")
  obtain ts' n2 where r: "sort_threads now ts n1 = (ts', n2)"
    by (cases "sort_threads now ts n1")
  have "map fst ts' = map fst ts"
    using "2.IH" [OF s [symmetric]] r by simp
  then show ?case
    by (simp add: s r)
qed

lemma sort_threads_mset:
  "(\<Sum>p\<leftarrow>fst (sort_threads now ts n). mset (snd p)) = (\<Sum>p\<leftarrow>ts. mset (snd p))"
proof (induction now ts n rule: sort_threads.induct)
  case (1 now n)
  then show ?case by simp
next
  case (2 now k bucket ts n)
  obtain sb n1 where s: "sort_by_timestamp now bucket n = (sb, n1)"
    by (cases "sort_by_timestamp now bucket n")
  obtain ts' n2 where r: "sort_threads now ts n1 = (ts', n2)"
    by (cases "sort_threads now ts n1")
  have "mset sb = mset bucket"
    using mset_sort_by_timestamp [of now bucket n] s by simp
  moreover have "(\<Sum>p\<leftarrow>ts'. mset (snd p)) = (\<Sum>p\<leftarrow>ts. mset (snd p))"
    using "2.IH" [OF s [symmetric]] r by simp
  ultimately show ?case
    by (simp add: s r)
qed

lemma sort_threads_keyed:
  "\<forall>p\<in>set ts. \<forall>m\<in>set (snd p). f m = fst p
     \<Longrightarrow> \<forall>p\<in>set (fst (sort_threads now ts n)). \<forall>m\<in>set (snd p). f m = fst p"
proof (induction now ts n rule: sort_threads.induct)
  case (1 now n)
  then show ?case by simp
next
  case (2 now k bucket ts n)
  obtain sb n1 where s: "sort_by_timestamp now bucket n = (sb, n1)"
    by (cases "sort_by_timestamp now bucket n")
  obtain ts' n2 where r: "sort_threads now ts n1 = (ts', n2)"
    by (cases "sort_threads now ts n1")
  have "mset sb = mset bucket"
    using mset_sort_by_timestamp [of now bucket n] s by simp
  then have sb: "set sb = set bucket"
    by (rule mset_eq_setD)
  have "\<forall>p\<in>set ts. \<forall>m\<in>set (snd p). f m = fst p"
    using "2.prems" by simp
  then have "\<forall>p\<in>set ts'. \<forall>m\<in>set (snd p). f m = fst p"
    using "2.IH" [OF s [symmetric]] r by simp
  then show ?case
    using "2.prems" sb by (simp add: s r)
qed

lemma keyed_disjoint:
  assumes d: "distinct (map fst G)"
    and k: "\<forall>p\<in>set G. \<forall>m\<in>set (snd p). f m = fst p"
    and i: "i < length G" and j: "j < length G" and ij: "i \<noteq> j"
  shows "set (snd (G ! i)) \<inter> set (snd (G ! j)) = {}"
proof (rule ccontr)
  assume "set (snd (G ! i)) \<inter> set (snd (G ! j)) \<noteq> {}"
  then obtain m where mi: "m \<in> set (snd (G ! i))" and mj: "m \<in> set (snd (G ! j))"
    by blast
  have "f m = fst (G ! i)"
    using k i mi by simp
  moreover have "f m = fst (G ! j)"
    using k j mj by simp
  ultimately have e: "map fst G ! i = map fst G ! j"
    using i j by simp
  have "(map fst G ! i = map fst G ! j) = (i = j)"
    using i j by (intro nth_eq_iff_index_eq [OF d]) simp_all
  with e ij show False by simp
qed

text \<open>Evaluation of the grouping on the example inputs.\<close>

lemma group_example:
  "fst (group_emails_by_thread const_hash tick [reply_msg, root_msg, bare_msg, reply_msg] 0)
     = [(''root@x'', [reply_msg, root_msg, reply_msg]), (''subject-0'', [bare_msg])]"
  by code_simp

lemma group_reply_root:
  "fst (group_emails_by_thread const_hash tick [reply_msg, root_msg] 0)
     = [(''root@x'', [reply_msg, root_msg])]"
  by code_simp

text \<open>
  C4. The buckets of \<open>group_emails_by_thread\<close> have distinct keys, the buckets at two
  different positions have no message in common, and the buckets together hold every
  message of the input as many times as the input does.
\<close>

theorem grouping_partitions:
  "distinct (map fst (fst (group_emails_by_thread hash now S n)))
   \<and> (\<forall>i < length (fst (group_emails_by_thread hash now S n)).
        \<forall>j < length (fst (group_emails_by_thread hash now S n)).
          i \<noteq> j \<longrightarrow>
            set (snd (fst (group_emails_by_thread hash now S n) ! i))
              \<inter> set (snd (fst (group_emails_by_thread hash now S n) ! j)) = {})
   \<and> (\<Sum>p\<leftarrow>fst (group_emails_by_thread hash now S n). mset (snd p)) = mset S"
proof -
  let ?G = "fst (group_emails_by_thread hash now S n)"
  have d: "distinct (map fst ?G)"
    using group_loop_distinct [of "[]" hash S]
    by (simp add: group_emails_by_thread_def sort_threads_keys)
  have k: "\<forall>p\<in>set ?G. \<forall>m\<in>set (snd p). extract_thread_id hash m = fst p"
    unfolding group_emails_by_thread_def
    by (rule sort_threads_keyed, rule group_loop_keyed) simp
  have u: "(\<Sum>p\<leftarrow>?G. mset (snd p)) = mset S"
    by (simp add: group_emails_by_thread_def sort_threads_mset group_loop_mset)
  have "\<forall>i < length ?G. \<forall>j < length ?G. i \<noteq> j \<longrightarrow>
      set (snd (?G ! i)) \<inter> set (snd (?G ! j)) = {}"
  proof (intro allI impI)
    fix i j
    assume "i < length ?G" and "j < length ?G" and "i \<noteq> j"
    then show "set (snd (?G ! i)) \<inter> set (snd (?G ! j)) = {}"
      by (rule keyed_disjoint [OF d k])
  qed
  with d u show ?thesis
    by (intro conjI)
qed

theorem grouping_partitions_witness:
  "fst (group_emails_by_thread const_hash tick [reply_msg, root_msg, bare_msg, reply_msg] 0)
     = [(''root@x'', [reply_msg, root_msg, reply_msg]), (''subject-0'', [bare_msg])]
   \<and> set [reply_msg, root_msg, reply_msg] \<inter> set [bare_msg] = {}
   \<and> mset [reply_msg, root_msg, reply_msg] + mset [bare_msg]
       = mset [reply_msg, root_msg, bare_msg, reply_msg]"
proof -
  note t = grouping_partitions [of const_hash tick "[reply_msg, root_msg, bare_msg, reply_msg]" 0,
      unfolded group_example]
  from t have "\<forall>i<2. \<forall>j<2. i \<noteq> j \<longrightarrow>
      set (snd ([(''root@x'', [reply_msg, root_msg, reply_msg]), (''subject-0'', [bare_msg])] ! i))
      \<inter> set (snd ([(''root@x'', [reply_msg, root_msg, reply_msg]), (''subject-0'', [bare_msg])] ! j)) = {}"
    by simp
  from this [rule_format, of 0 1]
  have a: "set [reply_msg, root_msg, reply_msg] \<inter> set [bare_msg] = {}"
    by simp
  from t have b: "mset [reply_msg, root_msg, reply_msg] + mset [bare_msg]
       = mset [reply_msg, root_msg, bare_msg, reply_msg]"
    by simp
  from a b show ?thesis
    by (simp only: group_example simp_thms)
qed

text \<open>
  C5. The timestamp of a message is the next reading of the clock, whatever its \<open>Date\<close>
  header holds: with the reply (dated Tue, 16 Jan 2024) listed before the message it
  answers (dated Mon, 15 Jan 2024) and a clock that advances, the bucket keeps the order
  of the input, where the order of the \<open>Date\<close> headers is the opposite one.
\<close>

theorem date_header_not_parsed:
  "get_email_timestamp now e n = (now n, Suc n)
   \<and> fst (group_emails_by_thread const_hash tick [reply_msg, root_msg] 0)
       = [(''root@x'', [reply_msg, root_msg])]"
  by (simp add: get_email_timestamp_def timestamp_loop_now group_reply_root)

subsection \<open>Response pattern\<close>

lemma patterns_step_response_pattern:
  "response_pattern (patterns_step i e prev acc) =
     response_pattern acc
       @ [if truthy_str prev \<and> prev \<noteq> Some (sender_of e) then ''response'' else ''continuation'']"
  by (simp add: patterns_step_def Let_def sender_of_def)

lemma patterns_loop_response_pattern:
  "response_pattern (patterns_loop es i prev acc) = response_pattern acc @ pattern_after prev es"
  by (induction es arbitrary: i prev acc)
     (simp_all add: patterns_step_response_pattern sender_of_def)

lemma length_pattern_after: "length (pattern_after prev es) = length es"
  by (induction es arbitrary: prev) simp_all

lemma pattern_after_first: "es \<noteq> [] \<Longrightarrow> pattern_after None es ! 0 = ''continuation''"
  by (cases es) (simp_all add: truthy_str_def)

lemma pattern_after_nth:
  "1 \<le> i \<Longrightarrow> i < length es \<Longrightarrow>
     pattern_after prev es ! i =
       (if sender_of (es ! (i - 1)) \<noteq> [] \<and> sender_of (es ! (i - 1)) \<noteq> sender_of (es ! i)
        then ''response'' else ''continuation'')"
proof (induction es arbitrary: prev i)
  case Nil
  then show ?case by simp
next
  case (Cons e es)
  then obtain j where j: "i = Suc j"
    by (cases i) simp_all
  show ?case
  proof (cases j)
    case 0
    with Cons.prems j obtain e' es' where es: "es = e' # es'"
      by (cases es) simp_all
    show ?thesis
      by (simp add: j 0 es truthy_str_def)
  next
    case (Suc k)
    with Cons.prems j have "1 \<le> j" and "j < length es"
      by simp_all
    from Cons.IH [OF this] show ?thesis
      by (simp add: j Suc)
  qed
qed

lemma analyze_thread_patterns_response_pattern:
  "thread \<noteq> [] \<Longrightarrow>
     map_option response_pattern (analyze_thread_patterns set_order thread)
       = Some (pattern_after None thread)"
  by (simp add: analyze_thread_patterns_def Let_def patterns_loop_response_pattern)

text \<open>Evaluation on the example inputs.\<close>

lemma example_senders:
  "sender_of root_msg = ''alice''" "sender_of reply_msg = ''bob''" "sender_of bare_msg = []"
  by code_simp+

lemma bare_thread_pattern:
  "map_option response_pattern (analyze_thread_patterns remdups [bare_msg, reply_msg])
     = Some [''continuation'', ''continuation'']"
  by code_simp

text \<open>
  C6 (as amended). For a non-empty thread the response pattern has one entry per
  message; entry 0 is \<open>continuation\<close>; entry \<open>i \<ge> 1\<close> is \<open>response\<close> when the sender of
  message \<open>i - 1\<close> is not the empty string and differs from the sender of message \<open>i\<close>,
  and \<open>continuation\<close> otherwise.
\<close>

theorem response_pattern_entries:
  assumes "thread \<noteq> []"
  shows "\<exists>a. analyze_thread_patterns set_order thread = Some a
           \<and> length (response_pattern a) = length thread
           \<and> response_pattern a ! 0 = ''continuation''
           \<and> (\<forall>i. 1 \<le> i \<and> i < length thread \<longrightarrow>
                 response_pattern a ! i =
                   (if sender_of (thread ! (i - 1)) \<noteq> []
                       \<and> sender_of (thread ! (i - 1)) \<noteq> sender_of (thread ! i)
                    then ''response'' else ''continuation''))"
proof -
  from analyze_thread_patterns_response_pattern [OF assms, of set_order]
  obtain a where a: "analyze_thread_patterns set_order thread = Some a"
    and rp: "response_pattern a = pattern_after None thread"
    by auto
  have "length (response_pattern a) = length thread"
    by (simp add: rp length_pattern_after)
  moreover have "response_pattern a ! 0 = ''continuation''"
    using assms by (simp add: rp pattern_after_first)
  moreover have "\<forall>i. 1 \<le> i \<and> i < length thread \<longrightarrow>
                 response_pattern a ! i =
                   (if sender_of (thread ! (i - 1)) \<noteq> []
                       \<and> sender_of (thread ! (i - 1)) \<noteq> sender_of (thread ! i)
                    then ''response'' else ''continuation'')"
    by (simp only: rp) (blast intro: pattern_after_nth)
  ultimately show ?thesis
    using a by blast
qed

theorem response_pattern_entries_witness:
  "[root_msg, reply_msg] \<noteq> []
   \<and> map_option response_pattern (analyze_thread_patterns remdups [root_msg, reply_msg])
       = Some [''continuation'', ''response'']"
proof -
  have ne: "[root_msg, reply_msg] \<noteq> []"
    by simp
  from response_pattern_entries [OF ne, of remdups]
  obtain a where a: "analyze_thread_patterns remdups [root_msg, reply_msg] = Some a"
    and len: "length (response_pattern a) = length [root_msg, reply_msg]"
    and first: "response_pattern a ! 0 = ''continuation''"
    and later: "\<forall>i. 1 \<le> i \<and> i < length [root_msg, reply_msg] \<longrightarrow>
                 response_pattern a ! i =
                   (if sender_of ([root_msg, reply_msg] ! (i - 1)) \<noteq> []
                       \<and> sender_of ([root_msg, reply_msg] ! (i - 1))
                           \<noteq> sender_of ([root_msg, reply_msg] ! i)
                    then ''response'' else ''continuation'')"
    by blast
  from later [rule_format, of 1] have second: "response_pattern a ! 1 = ''response''"
    by (simp add: example_senders)
  from len obtain x y where xy: "response_pattern a = [x, y]"
    by (cases "response_pattern a"; cases "tl (response_pattern a)") auto
  from first second have "response_pattern a = [''continuation'', ''response'']"
    by (simp add: xy)
  with a ne show ?thesis
    by simp
qed

text \<open>
  C6 as stated fails: the first message has no sender, the second is sent by \<open>bob\<close>,
  the two senders differ, and entry 1 is \<open>continuation\<close>.
\<close>

theorem response_pattern_counterexample:
  "sender_of ([bare_msg, reply_msg] ! 0) \<noteq> sender_of ([bare_msg, reply_msg] ! 1)
   \<and> map_option response_pattern (analyze_thread_patterns remdups [bare_msg, reply_msg])
       = Some [''continuation'', ''continuation'']"
  by (simp add: example_senders bare_thread_pattern)

subsection \<open>Recommendation\<close>

text \<open>The doubles that the recommendation computes with.\<close>

lemma float_values:
  "float_lit (5 / 10) = 1 / 2"
  "float_lit (8 / 10) = 3602879701896397 / 4503599627370496"
  "float_lit (2 / 10) = 3602879701896397 / 18014398509481984"
  "float_lit 1 = 1"
  by code_simp+

lemma float_values_reduced:
  "float_lit (1 / 2) = 1 / 2"
  "float_lit (4 / 5) = 3602879701896397 / 4503599627370496"
  "float_lit (1 / 5) = 3602879701896397 / 18014398509481984"
  using float_values by simp_all

lemma float_sums:
  "float_add (3602879701896397 / 4503599627370496) (3602879701896397 / 18014398509481984) = 1"
  "float_add (1 / 2) (3602879701896397 / 18014398509481984)
     = 3152519739159347 / 4503599627370496"
  by code_simp+

lemma confidence_should_draft_reply:
  "confidence (should_draft_reply set_order e T) =
     (if get_urgency_escalation (analyze_thread_patterns set_order (T @ [e]))
      then (if asks_for_reply e then 1 else 3152519739159347 / 4503599627370496)
      else (if asks_for_reply e then 3602879701896397 / 4503599627370496 else 1 / 2))"
  by (simp add: should_draft_reply_def Let_def asks_for_reply_def body_of_def
        float_values float_values_reduced float_sums)

lemma should_reply_should_draft_reply:
  "should_reply (should_draft_reply set_order e T) = asks_for_reply e"
  by (simp add: should_draft_reply_def Let_def asks_for_reply_def body_of_def)

lemma reply_msg_recommended:
  "asks_for_reply reply_msg"
  "get_urgency_escalation (analyze_thread_patterns remdups [root_msg, reply_msg])"
  by code_simp+

text \<open>
  C7. The confidence of a recommendation lies between 0 and 1, and it is exactly 1 when
  the body of the candidate asks for a reply (rule 2) and the thread shows an urgency
  escalation (rule 3).
\<close>

theorem confidence_in_unit_interval:
  "0 \<le> confidence (should_draft_reply set_order e T)
   \<and> confidence (should_draft_reply set_order e T) \<le> 1
   \<and> (asks_for_reply e
        \<and> get_urgency_escalation (analyze_thread_patterns set_order (T @ [e]))
      \<longrightarrow> confidence (should_draft_reply set_order e T) = 1)"
  by (simp add: confidence_should_draft_reply)

theorem confidence_in_unit_interval_witness:
  "asks_for_reply reply_msg
   \<and> get_urgency_escalation (analyze_thread_patterns remdups [root_msg, reply_msg])
   \<and> confidence (should_draft_reply remdups reply_msg [root_msg]) = 1"
  using confidence_in_unit_interval [of remdups reply_msg "[root_msg]"]
  by (simp add: reply_msg_recommended)

subsection \<open>What \<open>should_reply\<close> depends on\<close>

lemma starts_with_iff: "starts_with p s \<longleftrightarrow> (\<exists>post. s = p @ post)"
  by (induction p s rule: starts_with.induct) auto

lemma contains_iff: "contains needle hay \<longleftrightarrow> (\<exists>pre post. hay = pre @ needle @ post)"
proof (induction hay)
  case Nil
  then show ?case by simp
next
  case (Cons c cs)
  show ?case
  proof
    assume "contains needle (c # cs)"
    then consider "starts_with needle (c # cs)" | "contains needle cs"
      by auto
    then show "\<exists>pre post. c # cs = pre @ needle @ post"
    proof cases
      case 1
      then obtain post where "c # cs = needle @ post"
        by (auto simp: starts_with_iff)
      then have "c # cs = [] @ needle @ post"
        by simp
      then show ?thesis by blast
    next
      case 2
      with Cons.IH obtain pre post where "cs = pre @ needle @ post"
        by blast
      then have "c # cs = (c # pre) @ needle @ post"
        by simp
      then show ?thesis by blast
    qed
  next
    assume "\<exists>pre post. c # cs = pre @ needle @ post"
    then obtain pre post where e: "c # cs = pre @ needle @ post"
      by blast
    show "contains needle (c # cs)"
    proof (cases pre)
      case Nil
      with e have "starts_with needle (c # cs)"
        by (auto simp: starts_with_iff)
      then show ?thesis by simp
    next
      case (Cons p pre')
      with e have "cs = pre' @ needle @ post"
        by simp
      with Cons.IH have "contains needle cs"
        by blast
      then show ?thesis by simp
    qed
  qed
qed

lemma map_eq_append3:
  assumes "map f xs = p @ m @ q"
  shows "\<exists>a b c. xs = a @ b @ c \<and> map f b = m"
proof -
  let ?b = "take (length m) (drop (length p) xs)"
  have "map f ?b = take (length m) (drop (length p) (map f xs))"
    by (simp add: take_map drop_map)
  also have "\<dots> = m"
    by (simp add: assms)
  finally have "map f ?b = m" .
  moreover have "xs = take (length p) xs @ ?b @ drop (length m) (drop (length p) xs)"
    by (simp only: append_take_drop_id)
  ultimately show ?thesis
    by blast
qed

lemma contains_lower_iff: "contains (lower needle) (lower hay) \<longleftrightarrow> ci_contains needle hay"
proof
  assume "contains (lower needle) (lower hay)"
  then obtain pre post where "map lower_char hay = pre @ lower needle @ post"
    by (auto simp: contains_iff lower_def)
  then obtain a b c where "hay = a @ b @ c" and "map lower_char b = lower needle"
    by (blast dest: map_eq_append3)
  then have "hay = a @ b @ c \<and> lower b = lower needle"
    by (simp add: lower_def)
  then show "ci_contains needle hay"
    unfolding ci_contains_def by blast
next
  assume "ci_contains needle hay"
  then obtain pre mid post where "hay = pre @ mid @ post" and "lower mid = lower needle"
    by (auto simp: ci_contains_def)
  then have "lower hay = lower pre @ lower needle @ lower post"
    by (simp add: lower_def)
  then show "contains (lower needle) (lower hay)"
    by (auto simp: contains_iff)
qed

lemma lower_indicators:
  "lower ''please'' = ''please''" "lower ''can you'' = ''can you''"
  "lower ''what do you think'' = ''what do you think''"
  by code_simp+

lemma question_mark_not_lower: "CHR ''?'' \<notin> set lower_chars"
  by code_simp

lemma question_mark_not_upper: "CHR ''?'' \<notin> set upper_chars"
  by code_simp

lemma lower_char_question_mark: "lower_char c = CHR ''?'' \<longleftrightarrow> c = CHR ''?''"
proof (cases "map_of (zip upper_chars lower_chars) c")
  case None
  then show ?thesis
    by (simp add: lower_char_def)
next
  case (Some l)
  then have "(c, l) \<in> set (zip upper_chars lower_chars)"
    by (rule map_of_SomeD)
  then have "c \<in> set upper_chars" and "l \<in> set lower_chars"
    by (auto dest: set_zip_leftD set_zip_rightD)
  with question_mark_not_lower question_mark_not_upper have "l \<noteq> CHR ''?''" and "c \<noteq> CHR ''?''"
    by auto
  with Some show ?thesis
    by (simp add: lower_char_def)
qed

lemma question_mark_lower_char: "CHR ''?'' = lower_char c \<longleftrightarrow> CHR ''?'' = c"
  using lower_char_question_mark [of c] by auto

lemma contains_question_mark_lower: "contains ''?'' (lower s) \<longleftrightarrow> contains ''?'' s"
  by (induction s) (simp_all add: lower_def question_mark_lower_char)

lemma asks_for_reply_iff:
  "asks_for_reply e \<longleftrightarrow>
     contains ''?'' (body_of e) \<or> ci_contains ''please'' (body_of e)
     \<or> ci_contains ''can you'' (body_of e) \<or> ci_contains ''what do you think'' (body_of e)"
proof -
  have "contains ''please'' (lower (body_of e)) \<longleftrightarrow> ci_contains ''please'' (body_of e)"
    using contains_lower_iff [of "''please''" "body_of e"] by (simp only: lower_indicators)
  moreover have "contains ''can you'' (lower (body_of e)) \<longleftrightarrow> ci_contains ''can you'' (body_of e)"
    using contains_lower_iff [of "''can you''" "body_of e"] by (simp only: lower_indicators)
  moreover have "contains ''what do you think'' (lower (body_of e))
                   \<longleftrightarrow> ci_contains ''what do you think'' (body_of e)"
    using contains_lower_iff [of "''what do you think''" "body_of e"]
    by (simp only: lower_indicators)
  moreover have "asks_for_reply e \<longleftrightarrow>
     contains ''?'' (lower (body_of e)) \<or> contains ''please'' (lower (body_of e))
     \<or> contains ''can you'' (lower (body_of e))
     \<or> contains ''what do you think'' (lower (body_of e))"
    by (simp add: asks_for_reply_def)
  ultimately show ?thesis
    by (simp only: contains_question_mark_lower)
qed

text \<open>
  C8. \<open>should_reply\<close> is the same for any two prior threads, and it is true exactly when
  the body of the candidate contains \<open>?\<close>, or \<open>please\<close>, \<open>can you\<close> or
  \<open>what do you think\<close> in any letter case.
\<close>

theorem should_reply_body_only:
  "should_reply (should_draft_reply set_order1 e T1)
     = should_reply (should_draft_reply set_order2 e T2)
   \<and> should_reply (should_draft_reply set_order1 e T1)
     = (contains ''?'' (body_of e) \<or> ci_contains ''please'' (body_of e)
        \<or> ci_contains ''can you'' (body_of e) \<or> ci_contains ''what do you think'' (body_of e))"
  by (simp only: should_reply_should_draft_reply asks_for_reply_iff simp_thms)

subsection \<open>Summary\<close>

text \<open>
  What the code builds for a thread of two messages or more, with \<open>N\<close> the number of
  distinct senders (a missing sender is \<open>Unknown\<close>) and the names taken in the iteration
  order of the sender set: \<open>Conversation with N participants (\<close>, up to three names
  joined by a comma and a space, \<open> +K others\<close> with \<open>K = N - 3\<close> when \<open>N > 3\<close>,
  \<open>), M messages\<close> with \<open>M\<close> the length of the thread, and then \<open>. Topic: \<close> with the
  first 50 characters of the normalized subject of the last message, whatever that
  subject is.
\<close>

lemma conversation_summary_built:
  assumes "2 \<le> length thread"
    and "distinct (set_order (map sender_or_unknown thread))
         \<and> set (set_order (map sender_or_unknown thread)) = set (map sender_or_unknown thread)"
  shows "get_conversation_summary set_order thread =
           ''Conversation with '' @ str_nat (card (set (map sender_or_unknown thread)))
           @ '' participants (''
           @ join '', '' (take 3 (set_order (map sender_or_unknown thread)))
           @ (if card (set (map sender_or_unknown thread)) > 3
              then '' +'' @ str_nat (card (set (map sender_or_unknown thread)) - 3) @ '' others''
              else [])
           @ ''), '' @ str_nat (length thread) @ '' messages''
           @ ''. Topic: '' @ take 50 (normalize_subject (get_str (subject (last thread)) []))"
proof -
  let ?names = "set_order (map sender_or_unknown thread)"
  from assms(1) have ne: "thread \<noteq> []" and len: "length thread \<noteq> 1"
    by auto
  have "(\<lambda>e. get_str (sender e) ''Unknown'') = sender_or_unknown"
    by (rule ext) (simp add: sender_or_unknown_def)
  then have names: "set_order (map (\<lambda>e. get_str (sender e) ''Unknown'') thread) = ?names"
    by simp
  have n: "length ?names = card (set (map sender_or_unknown thread))"
    using assms(2) distinct_card [of ?names] by simp
  have topic: "last (map (\<lambda>e. get_str (subject e) []) thread) = get_str (subject (last thread)) []"
    using ne by (simp add: last_map)
  show ?thesis
    unfolding get_conversation_summary_def Let_def names n topic
    using ne len by simp
qed

text \<open>Evaluation on the example inputs.\<close>

lemma summary_examples:
  "get_str (subject (last [root_msg, no_subject_msg])) [] = []"
  "get_conversation_summary remdups [root_msg, no_subject_msg]
     = ''Conversation with 2 participants (alice, bob), 2 messages. Topic: ''"
  "get_conversation_summary remdups [root_msg, reply_msg]
     = ''Conversation with 2 participants (alice, bob), 2 messages. Topic: budget''"
  by code_simp+

text \<open>
  C9. The summary of a thread of two messages or more is to end with the \<open>Topic\<close>
  segment exactly when the last message has a subject. It does when there is one, and
  it does as well when there is none: the last message of the first thread below has
  the empty subject, and its summary ends with \<open>. Topic: \<close> and nothing after it.
\<close>

theorem topic_segment_without_subject:
  "get_str (subject (last [root_msg, no_subject_msg])) [] = []
   \<and> get_conversation_summary remdups [root_msg, no_subject_msg]
       = ''Conversation with 2 participants (alice, bob), 2 messages. Topic: ''
   \<and> get_conversation_summary remdups [root_msg, reply_msg]
       = ''Conversation with 2 participants (alice, bob), 2 messages. Topic: budget''"
  by (simp only: summary_examples simp_thms)

subsection \<open>Orchestration\<close>

lemma analyze_email_fails:
  "classifier_fails client e \<Longrightarrow>
     analyze_email client json_loads (get_str (sender e) []) (get_str (subject e) [])
       (get_str (body e) []) = fallback_analysis"
  by (simp add: analyze_email_def classifier_fails_def split: option.splits)

lemma truthy_fallback_analysis: "truthy fallback_analysis"
  by (simp add: fallback_analysis_def)

lemma analyze_email_falsy:
  "\<not> truthy (analyze_email client json_loads s sub b) \<longleftrightarrow>
     (\<exists>create text v. client = Some create \<and> create s sub (take 1500 b) = Some text
        \<and> parse_response json_loads text = Some v \<and> \<not> truthy v)"
  by (auto simp: analyze_email_def truthy_fallback_analysis split: option.splits)

lemma enhance_not_none: "enhance set_order e ctx basic \<noteq> Inr None"
  by (simp add: enhance_def Let_def split: pyval.splits)

lemma get_thread_context_Nil: "get_thread_context hash now e [] n = ([], n)"
  by (simp add: get_thread_context_def sort_by_timestamp_def)

lemma analyze_email_with_context_eq:
  "analyze_email_with_context client json_loads hash now set_order e all_emails n =
     (let basic = analyze_email client json_loads (get_str (sender e) [])
                    (get_str (subject e) []) (get_str (body e) [])
      in if \<not> truthy basic then Inr None
         else if thread_context_of hash now e all_emails n = [] then Inr (Some basic)
         else enhance set_order e (thread_context_of hash now e all_emails n) basic)"
proof (cases all_emails)
  case None
  then show ?thesis
    by (simp add: analyze_email_with_context_def thread_context_of_def Let_def)
next
  case (Some xs)
  show ?thesis
  proof (cases xs)
    case Nil
    with Some show ?thesis
      by (simp add: analyze_email_with_context_def thread_context_of_def Let_def
            get_thread_context_Nil)
  next
    case (Cons y ys)
    with Some show ?thesis
      by (simp add: analyze_email_with_context_def thread_context_of_def Let_def
            split: prod.splits)
  qed
qed

lemma analyze_email_with_context_none:
  "analyze_email_with_context client json_loads hash now set_order e all_emails n = Inr None
     \<longleftrightarrow> \<not> truthy (analyze_email client json_loads (get_str (sender e) [])
                      (get_str (subject e) []) (get_str (body e) []))"
  by (simp add: analyze_email_with_context_eq Let_def enhance_not_none)

lemma reply_urgency_should_draft_reply:
  "reply_urgency (should_draft_reply set_order e T) =
     (if get_urgency_escalation (analyze_thread_patterns set_order (T @ [e]))
      then ''high'' else ''normal'')"
  by (simp add: should_draft_reply_def Let_def)

lemma enhance_fallback:
  "enhance set_order e ctx fallback_analysis =
     Inr (Some (PDict (fallback_with
       (if get_urgency_escalation (analyze_thread_patterns set_order (ctx @ [e]))
        then ''High'' else ''Medium'')
       (PDict
           [(''thread_length'',
               PInt (int (get_thread_length (analyze_thread_patterns set_order (ctx @ [e])) 1))),
            (''participants'',
               PList (map PStr (get_participants (analyze_thread_patterns set_order (ctx @ [e])) []))),
            (''conversation_summary'', PStr (get_conversation_summary set_order (ctx @ [e]))),
            (''reply_recommended'', PBool (should_reply (should_draft_reply set_order e ctx))),
            (''reply_urgency'', PStr (reply_urgency (should_draft_reply set_order e ctx))),
            (''suggested_reply_type'', PStr (reply_type (should_draft_reply set_order e ctx)))]))))"
  by (simp add: enhance_def Let_def fallback_analysis_def fallback_with_def
        reply_urgency_should_draft_reply)

lemma fallback_with_other:
  "k \<noteq> ''thread_context'' \<Longrightarrow> k \<noteq> ''priority''
     \<Longrightarrow> map_of (fallback_with p c) k = map_of (items_of fallback_analysis) k"
  by (simp add: fallback_with_def fallback_analysis_def)

lemma fallback_with_priority: "map_of (fallback_with p c) ''priority'' = Some (PStr p)"
  by (simp add: fallback_with_def)

lemma fallback_with_thread_context: "map_of (fallback_with p c) ''thread_context'' = Some c"
  by (simp add: fallback_with_def)

text \<open>On a failure of the classifier the result is a record, never an error or none.\<close>

lemma failure_returns_record:
  assumes "classifier_fails client e"
  shows "\<exists>d. analyze_email_with_context client json_loads hash now set_order e all_emails n
               = Inr (Some (PDict d))"
proof (cases "thread_context_of hash now e all_emails n = []")
  case True
  have "analyze_email_with_context client json_loads hash now set_order e all_emails n
          = Inr (Some fallback_analysis)"
    by (simp add: analyze_email_with_context_eq analyze_email_fails [OF assms]
          truthy_fallback_analysis True)
  then show ?thesis
    by (simp add: fallback_analysis_def)
next
  case False
  have "analyze_email_with_context client json_loads hash now set_order e all_emails n
          = enhance set_order e (thread_context_of hash now e all_emails n) fallback_analysis"
    by (simp add: analyze_email_with_context_eq analyze_email_fails [OF assms]
          truthy_fallback_analysis False)
  then show ?thesis
    by (simp only: enhance_fallback) blast
qed

text \<open>Evaluation on the example inputs.\<close>

lemma context_examples:
  "thread_context_of const_hash tick reply_msg (Some [root_msg, reply_msg]) 0 = [root_msg]"
  "thread_context_of const_hash tick root_msg None 0 = []"
  by code_simp+

lemma orchestration_examples:
  "analyze_email_with_context None no_json const_hash tick remdups reply_msg
     (Some [root_msg, reply_msg]) 0
   = Inr (Some (PDict
       [(''summary'', PStr ''AI analysis unavailable''),
        (''category'', PStr ''Unknown''),
        (''priority'', PStr ''High''),
        (''suggested_action'', PStr ''NoAction''),
        (''urgency_indicators'', PList []),
        (''requires_response'', PBool False),
        (''estimated_response_time'', PNone),
        (''task_description'', PNone),
        (''thread_position'', PStr ''Unknown''),
        (''thread_context'', PDict
           [(''thread_length'', PInt 2),
            (''participants'', PList [PStr ''alice'', PStr ''bob'']),
            (''conversation_summary'',
               PStr ''Conversation with 2 participants (alice, bob), 2 messages. Topic: budget''),
            (''reply_recommended'', PBool True),
            (''reply_urgency'', PStr ''high''),
            (''suggested_reply_type'', PStr ''standard'')])]))"
  "analyze_email_with_context (Some failing_client) no_json const_hash tick remdups root_msg None 0
   = Inr (Some fallback_analysis)"
  "classifier_fails (Some failing_client) root_msg"
  by code_simp+

text \<open>
  C1 (as amended). When the classifier fails on a message (no client, or the call
  raises), \<open>analyze_email_with_context\<close> returns a record, never none. Without a thread
  context the record is the fallback record verbatim. With one, it has every field of
  the fallback record unchanged but \<open>priority\<close>, which is \<open>High\<close> when the thread shows
  an urgency escalation and \<open>Medium\<close> otherwise, and it has a \<open>thread_context\<close> field
  in addition.
\<close>

theorem classifier_failure_gives_fallback:
  assumes "classifier_fails client e"
  shows "\<exists>d. analyze_email_with_context client json_loads hash now set_order e all_emails n
               = Inr (Some (PDict d))
           \<and> (if thread_context_of hash now e all_emails n = []
              then PDict d = fallback_analysis
              else (\<forall>k. k \<noteq> ''thread_context'' \<and> k \<noteq> ''priority''
                      \<longrightarrow> map_of d k = map_of (items_of fallback_analysis) k)
                   \<and> map_of d ''priority'' =
                       Some (PStr (if get_urgency_escalation
                                        (analyze_thread_patterns set_order
                                           (thread_context_of hash now e all_emails n @ [e]))
                                   then ''High'' else ''Medium''))
                   \<and> map_of d ''thread_context'' \<noteq> None)"
proof (cases "thread_context_of hash now e all_emails n = []")
  case True
  have "analyze_email_with_context client json_loads hash now set_order e all_emails n
          = Inr (Some fallback_analysis)"
    by (simp add: analyze_email_with_context_eq analyze_email_fails [OF assms]
          truthy_fallback_analysis True)
  with True show ?thesis
    by (simp add: fallback_analysis_def)
next
  case False
  have "analyze_email_with_context client json_loads hash now set_order e all_emails n
          = enhance set_order e (thread_context_of hash now e all_emails n) fallback_analysis"
    by (simp add: analyze_email_with_context_eq analyze_email_fails [OF assms]
          truthy_fallback_analysis False)
  then obtain c where r:
    "analyze_email_with_context client json_loads hash now set_order e all_emails n
       = Inr (Some (PDict (fallback_with
           (if get_urgency_escalation
                 (analyze_thread_patterns set_order
                    (thread_context_of hash now e all_emails n @ [e]))
            then ''High'' else ''Medium'') c)))"
    by (simp only: enhance_fallback)
  let ?p = "if get_urgency_escalation
                 (analyze_thread_patterns set_order
                    (thread_context_of hash now e all_emails n @ [e]))
            then ''High'' else ''Medium''"
  have k: "\<forall>k. k \<noteq> ''thread_context'' \<and> k \<noteq> ''priority''
             \<longrightarrow> map_of (fallback_with ?p c) k = map_of (items_of fallback_analysis) k"
    by (simp add: fallback_with_other)
  have p: "map_of (fallback_with ?p c) ''priority'' = Some (PStr ?p)"
    by (rule fallback_with_priority)
  have t: "map_of (fallback_with ?p c) ''thread_context'' \<noteq> None"
    by (simp add: fallback_with_thread_context)
  from False r k p t show ?thesis
    by (intro exI [of _ "fallback_with ?p c"]) (simp only: if_False simp_thms)
qed

theorem classifier_failure_gives_fallback_witness:
  "classifier_fails None reply_msg
   \<and> thread_context_of const_hash tick reply_msg (Some [root_msg, reply_msg]) 0 = [root_msg]
   \<and> (\<exists>d. analyze_email_with_context None no_json const_hash tick remdups reply_msg
              (Some [root_msg, reply_msg]) 0 = Inr (Some (PDict d))
          \<and> map_of d ''category'' = Some (PStr ''Unknown'')
          \<and> map_of d ''priority'' = Some (PStr ''High''))
   \<and> classifier_fails None root_msg
   \<and> thread_context_of const_hash tick root_msg None 0 = []
   \<and> analyze_email_with_context None no_json const_hash tick remdups root_msg None 0
       = Inr (Some fallback_analysis)"
proof -
  have f: "classifier_fails None reply_msg" and g: "classifier_fails None root_msg"
    by (simp_all add: classifier_fails_def)
  note c = context_examples
  from classifier_failure_gives_fallback [OF f, of no_json const_hash tick remdups
      "Some [root_msg, reply_msg]" 0]
  obtain d where r: "analyze_email_with_context None no_json const_hash tick remdups reply_msg
              (Some [root_msg, reply_msg]) 0 = Inr (Some (PDict d))"
    and k: "\<forall>k. k \<noteq> ''thread_context'' \<and> k \<noteq> ''priority''
              \<longrightarrow> map_of d k = map_of (items_of fallback_analysis) k"
    and p: "map_of d ''priority'' =
              Some (PStr (if get_urgency_escalation
                               (analyze_thread_patterns remdups ([root_msg] @ [reply_msg]))
                          then ''High'' else ''Medium''))"
    unfolding c by auto
  from k [rule_format, of "''category''"] have cat: "map_of d ''category'' = Some (PStr ''Unknown'')"
    by (simp add: fallback_analysis_def)
  from p have prio: "map_of d ''priority'' = Some (PStr ''High'')"
    by (simp add: reply_msg_recommended)
  from classifier_failure_gives_fallback [OF g, of no_json const_hash tick remdups None 0]
  have s: "analyze_email_with_context None no_json const_hash tick remdups root_msg None 0
             = Inr (Some fallback_analysis)"
    unfolding c by auto
  from r cat prio have "\<exists>d. analyze_email_with_context None no_json const_hash tick remdups
              reply_msg (Some [root_msg, reply_msg]) 0 = Inr (Some (PDict d))
          \<and> map_of d ''category'' = Some (PStr ''Unknown'')
          \<and> map_of d ''priority'' = Some (PStr ''High'')"
    by blast
  with f g c s show ?thesis
    by blast
qed

text \<open>
  C1 as stated fails: there is no client, the message has a thread context, and the
  record returned is not the fallback record: its priority is \<open>High\<close> and it has a
  \<open>thread_context\<close> field.
\<close>

theorem classifier_failure_counterexample:
  "classifier_fails None reply_msg
   \<and> analyze_email_with_context None no_json const_hash tick remdups reply_msg
       (Some [root_msg, reply_msg]) 0 \<noteq> Inr (Some fallback_analysis)
   \<and> analyze_email_with_context None no_json const_hash tick remdups reply_msg
       (Some [root_msg, reply_msg]) 0
     = Inr (Some (PDict
         [(''summary'', PStr ''AI analysis unavailable''),
          (''category'', PStr ''Unknown''),
          (''priority'', PStr ''High''),
          (''suggested_action'', PStr ''NoAction''),
          (''urgency_indicators'', PList []),
          (''requires_response'', PBool False),
          (''estimated_response_time'', PNone),
          (''task_description'', PNone),
          (''thread_position'', PStr ''Unknown''),
          (''thread_context'', PDict
             [(''thread_length'', PInt 2),
              (''participants'', PList [PStr ''alice'', PStr ''bob'']),
              (''conversation_summary'',
                 PStr ''Conversation with 2 participants (alice, bob), 2 messages. Topic: budget''),
              (''reply_recommended'', PBool True),
              (''reply_urgency'', PStr ''high''),
              (''suggested_reply_type'', PStr ''standard'')])]))"
  by (simp add: orchestration_examples(1) classifier_fails_def fallback_analysis_def)

text \<open>
  C2 (as amended). When the classifier fails on a message (no client, or the call
  raises), the base classification is the fallback record and
  \<open>analyze_email_with_context\<close> returns a record: not none, and no error either. It
  returns none exactly when the classifier answers and the answer parses to a value
  that counts as false (an empty object, \<open>null\<close>, \<open>false\<close>, zero, an empty string or
  list).
\<close>

theorem base_failure_gives_record:
  "(classifier_fails client e \<longrightarrow>
      analyze_email client json_loads (get_str (sender e) []) (get_str (subject e) [])
        (get_str (body e) []) = fallback_analysis
      \<and> (\<exists>d. analyze_email_with_context client json_loads hash now set_order e all_emails n
                = Inr (Some (PDict d))))
   \<and> (analyze_email_with_context client json_loads hash now set_order e all_emails n = Inr None
        \<longleftrightarrow> (\<exists>create text v. client = Some create
               \<and> create (get_str (sender e) []) (get_str (subject e) [])
                    (take 1500 (get_str (body e) [])) = Some text
               \<and> parse_response json_loads text = Some v \<and> \<not> truthy v))"
proof (intro conjI impI)
  assume f: "classifier_fails client e"
  show "analyze_email client json_loads (get_str (sender e) []) (get_str (subject e) [])
          (get_str (body e) []) = fallback_analysis"
    by (rule analyze_email_fails [OF f])
  show "\<exists>d. analyze_email_with_context client json_loads hash now set_order e all_emails n
               = Inr (Some (PDict d))"
    by (rule failure_returns_record [OF f])
next
  show "analyze_email_with_context client json_loads hash now set_order e all_emails n = Inr None
        \<longleftrightarrow> (\<exists>create text v. client = Some create
               \<and> create (get_str (sender e) []) (get_str (subject e) [])
                    (take 1500 (get_str (body e) [])) = Some text
               \<and> parse_response json_loads text = Some v \<and> \<not> truthy v)"
    by (simp only: analyze_email_with_context_none analyze_email_falsy)
qed

theorem base_failure_gives_record_witness:
  "classifier_fails None root_msg
   \<and> analyze_email None no_json (get_str (sender root_msg) []) (get_str (subject root_msg) [])
        (get_str (body root_msg) []) = fallback_analysis
   \<and> (\<exists>d. analyze_email_with_context None no_json const_hash tick remdups root_msg
              (Some [root_msg, reply_msg]) 0 = Inr (Some (PDict d)))"
proof -
  have f: "classifier_fails None root_msg"
    by (simp add: classifier_fails_def)
  note t = base_failure_gives_record [of None root_msg no_json const_hash tick remdups
      "Some [root_msg, reply_msg]" 0]
  from t [THEN conjunct1, THEN mp, OF f] f show ?thesis
    by blast
qed

text \<open>
  C2 as stated fails: every call of this client raises, and the result is the fallback
  record, not none.
\<close>

theorem base_failure_counterexample:
  "classifier_fails (Some failing_client) root_msg
   \<and> analyze_email_with_context (Some failing_client) no_json const_hash tick remdups root_msg None 0
       = Inr (Some fallback_analysis)"
  by (simp only: orchestration_examples simp_thms)

end
